theory Spec2Isabelle
  imports Complex_Main
begin

section \<open>vid2vibes: pattern generation, audio analysis and playback scheduling\<close>

text \<open>
  A shallow embedding of the JavaScript sources \<^verbatim>\<open>patternGenerator\<close> (the module
  \<^verbatim>\<open>PatternGenerator\<close>), \<^verbatim>\<open>scripts/audioAnalyzer.js\<close> (the worker code) and
  \<^verbatim>\<open>scripts/player.js\<close> (the pattern scheduler of \<^verbatim>\<open>Player\<close>).

  Numbers. A JavaScript number is modelled as a \<^typ>\<open>real\<close>. In the resume slice
  (\<^verbatim>\<open>createResumePattern\<close>) and in the volume-curve pass of the worker, whose results
  depend on the rounding of IEEE 754 doubles, every arithmetic operation of the source is
  the exact operation followed by the rounding \<open>dbl\<close> defined below. The other functions
  are modelled with exact arithmetic, so rounding errors are not part of their model.
  Where the source can produce a non-finite number (\<^verbatim>\<open>NaN\<close>, \<^verbatim>\<open>Infinity\<close>) the model
  has an explicit branch or an \<^typ>\<open>real option\<close> whose \<open>None\<close> is the non-finite value.
  Values that the source keeps integral (array lengths, indices, rounded intensities) are
  \<^typ>\<open>nat\<close> or \<^typ>\<open>int\<close>. \<^verbatim>\<open>Math.round x\<close> is \<open>\<lfloor>x + 1/2\<rfloor>\<close>, which is \<^const>\<open>round\<close>.
\<close>

subsection \<open>Double arithmetic\<close>

text \<open>Rounding to the nearest integer, ties to the even one.\<close>

definition round_half_even :: "real \<Rightarrow> int" where
  "round_half_even y =
     (let f = \<lfloor>y\<rfloor>
      in if y - of_int f < 1/2 then f
         else if 1/2 < y - of_int f then f + 1
         else if even f then f else f + 1)"

text \<open>
  The spacing of the doubles around \<open>x\<close>: a double has a significand of 53 bits, so for
  \<open>2 powi e \<le> \<bar>x\<bar> < 2 powi (e + 1)\<close> the spacing is \<open>2 powi (e - 52)\<close>; below
  \<open>2 powi (- 1022)\<close> (the subnormal numbers) it stays \<open>2 powi (- 1074)\<close>.
\<close>

definition quantum :: "real \<Rightarrow> real" where
  "quantum x = 2 powi (max \<lfloor>log 2 \<bar>x\<bar>\<rfloor> (- 1022) - 52)"

text \<open>
  \<open>dbl x\<close> is the double nearest to \<open>x\<close>, ties to the even significand: the rounding that
  follows every arithmetic operation on doubles, and the value of a decimal literal of the
  source (\<^verbatim>\<open>0.01\<close> is \<open>dbl 0.01\<close>). A result whose magnitude reaches \<open>2 powi 1024\<close> is
  \<^verbatim>\<open>Infinity\<close> in the source and stays finite here; times, tick lengths and sample rates
  are far below. The sign of a zero is not modelled.
\<close>

definition dbl :: "real \<Rightarrow> real" where
  "dbl x = (if x = 0 then 0 else of_int (round_half_even (x / quantum x)) * quantum x)"

subsection \<open>Strings: \<^verbatim>\<open>join(';')\<close>, \<^verbatim>\<open>split(';')\<close>, \<^verbatim>\<open>slice\<close>\<close>

definition semi :: char where
  "semi = CHR 0x3B"

text \<open>\<^verbatim>\<open>Array.prototype.join(';')\<close> on an array of strings.\<close>

fun join_semi :: "string list \<Rightarrow> string" where
  "join_semi [] = []"
| "join_semi [x] = x"
| "join_semi (x # y # ys) = x @ semi # join_semi (y # ys)"

text \<open>\<^verbatim>\<open>String.prototype.split(';')\<close>: the empty string splits into one empty field.\<close>

fun split_semi :: "string \<Rightarrow> string list" where
  "split_semi [] = [[]]"
| "split_semi (c # cs) =
     (if c = semi then [] # split_semi cs
      else (case split_semi cs of
              [] \<Rightarrow> [[c]]
            | w # ws \<Rightarrow> (c # w) # ws))"

text \<open>
  \<^verbatim>\<open>Array.prototype.slice(start)\<close> with one integer argument: a negative start counts
  from the end, and a start beyond the end gives the empty array.
\<close>

definition js_slice_from :: "'a list \<Rightarrow> int \<Rightarrow> 'a list" where
  "js_slice_from xs start =
     (if start < 0 then drop (nat (max (int (length xs) + start) 0)) xs
      else drop (nat start) xs)"

text \<open>\<^verbatim>\<open>Array.prototype.slice(start, end)\<close> for indices \<open>0 \<le> start \<le> end\<close>.\<close>

definition js_slice :: "'a list \<Rightarrow> nat \<Rightarrow> nat \<Rightarrow> 'a list" where
  "js_slice xs start stop = take (min stop (length xs) - start) (drop start xs)"

text \<open>The decimal string of an integer, as \<^verbatim>\<open>join\<close> writes a number that is integral.\<close>

definition digit_char :: "nat \<Rightarrow> char" where
  "digit_char d = ''0123456789'' ! (d mod 10)"

fun nat_string :: "nat \<Rightarrow> string" where
  "nat_string n = (if n < 10 then [digit_char n] else nat_string (n div 10) @ [digit_char n])"

declare nat_string.simps [simp del]

definition number_string :: "int \<Rightarrow> string" where
  "number_string i = (if i < 0 then CHR ''-'' # nat_string (nat (- i)) else nat_string (nat i))"

text \<open>\<^verbatim>\<open>Utils.clamp(value, min, max)\<close> (utils.js).\<close>

definition clamp :: "int \<Rightarrow> int \<Rightarrow> int \<Rightarrow> int" where
  "clamp v lo hi = min (max v lo) hi"

subsection \<open>Commands and their metadata\<close>

datatype js_error = TypeError

text \<open>
  The \<^verbatim>\<open>_meta\<close> object that \<^verbatim>\<open>generate\<close> attaches to every chunk. Its start, tick and
  point count are numbers; an object that lacks one of them (as \<^verbatim>\<open>convertOfficialFormat\<close>
  builds for an imported chunk without metadata) is not a value of this type.
\<close>

record pattern_meta =
  startTime :: real
  endTime :: "real option"
  points :: int
  intervalMs :: real
  isResumeSlice :: bool

text \<open>
  A command object: a \<^verbatim>\<open>Pattern\<close> command carries \<^verbatim>\<open>rule\<close> and \<^verbatim>\<open>strength\<close>, a
  \<^verbatim>\<open>Function\<close> command carries \<^verbatim>\<open>action\<close>; \<^verbatim>\<open>_meta\<close> may be absent.
\<close>

record lovense_command =
  command :: string
  rule :: "string option"
  strength :: "string option"
  action :: "string option"
  timeSec :: real
  apiVer :: nat
  meta :: "pattern_meta option"

subsection \<open>\<^verbatim>\<open>PatternGenerator.createResumePattern\<close>\<close>

text \<open>
  The result is \<open>Inr None\<close> for \<^verbatim>\<open>null\<close>, \<open>Inr (Some p)\<close> for a returned object and
  \<open>Inl TypeError\<close> where the source would call \<^verbatim>\<open>split\<close> on an absent \<^verbatim>\<open>strength\<close>.
  The subtraction, the divisions and the products are those of doubles. A tick of zero
  (also by underflow of \<^verbatim>\<open>intervalMs / 1000\<close>) makes the quotient \<^verbatim>\<open>Infinity\<close>, which is
  \<open>\<ge> points\<close>.
\<close>

definition createResumePattern ::
  "lovense_command \<Rightarrow> real \<Rightarrow> js_error + lovense_command option" where
  "createResumePattern pattern currentTime =
     (case meta pattern of
        None \<Rightarrow> Inr (Some pattern)
      | Some m \<Rightarrow>
          (let intervalSec = dbl (intervalMs m / 1000);
               timeIntoPattern = dbl (currentTime - startTime m)
           in if timeIntoPattern \<le> 0 then Inr (Some pattern)
              else if intervalSec = 0 then Inr None
              else
                (let skipCommands = \<lfloor>dbl (timeIntoPattern / intervalSec)\<rfloor>
                 in if skipCommands \<ge> points m then Inr None
                    else
                      (case strength pattern of
                         None \<Rightarrow> Inl TypeError
                       | Some s \<Rightarrow>
                           (let strengths = split_semi s;
                                remainingStrengths = js_slice_from strengths skipCommands
                            in if length remainingStrengths = 0 then Inr None
                               else
                                 (let newDuration =
                                        dbl (of_int (round (dbl (dbl
                                               (of_nat (length remainingStrengths)
                                                * intervalSec) * 1000))) / 1000)
                                  in Inr (Some (pattern
                                       \<lparr> strength := Some (join_semi remainingStrengths),
                                         timeSec := newDuration,
                                         meta := Some (m
                                           \<lparr> startTime := currentTime,
                                             points := int (length remainingStrengths),
                                             isResumeSlice := True \<rparr>) \<rparr>))))))))"

subsection \<open>\<^verbatim>\<open>PatternGenerator.generate\<close>: the intensity sequence\<close>

text \<open>
  A point of the analyser's volume curve. A level is \<open>None\<close> when it is not a finite
  number (\<^verbatim>\<open>NaN\<close> from an empty window, or an absent field).
\<close>

record volume_point =
  time :: real
  volume :: "real option"
  normalized :: "real option"

record analysis_result =
  duration :: real
  bpm :: int
  beatInterval :: real
  volumeData :: "volume_point list"

text \<open>The settings object, as \<^verbatim>\<open>UI.getSettings\<close> builds it (every field present).\<close>

record settings =
  deviceType :: string
  minIntensity :: int
  maxIntensity :: int
  onBeatBoost :: real
  breakIntensity :: real

definition deviceFeatures :: "string \<Rightarrow> string option" where
  "deviceFeatures = map_of
     [(''generic-vibe'', ''v''), (''max2'', ''v,p''), (''nora'', ''v,r''),
      (''gush2'', ''o''), (''solace'', ''t'')]"

definition intervalSec :: real where
  "intervalSec = 0.1"

text \<open>
  \<^verbatim>\<open>for (let t = 0; t < duration; t += beatInterval) beats.push(t)\<close>. The loop does not
  end when \<open>beatInterval \<le> 0 < duration\<close>, so its result is an option.
\<close>

partial_function (option) build_beats ::
  "real \<Rightarrow> real \<Rightarrow> real \<Rightarrow> real list \<Rightarrow> real list option" where
  "build_beats dur bi t beats =
     (if t < dur then build_beats dur bi (t + bi) (beats @ [t]) else Some beats)"

text \<open>
  \<^verbatim>\<open>for (let b = 0; b < beats.length; b++) { if (t >= beats[b]) beatIndex = b; else break; }\<close>
  over the unvisited rest of \<open>beats\<close>, \<open>b\<close> being the index of its head.
\<close>

fun beat_index_loop :: "real \<Rightarrow> real list \<Rightarrow> nat \<Rightarrow> nat \<Rightarrow> nat" where
  "beat_index_loop t [] b beatIndex = beatIndex"
| "beat_index_loop t (x # xs) b beatIndex =
     (if t \<ge> x then beat_index_loop t xs (Suc b) b else beatIndex)"

text \<open>\<^verbatim>\<open>Array.prototype.findIndex\<close>; \<open>None\<close> is the result \<open>-1\<close>.\<close>

fun findIndex_from :: "('a \<Rightarrow> bool) \<Rightarrow> 'a list \<Rightarrow> nat \<Rightarrow> nat option" where
  "findIndex_from P [] i = None"
| "findIndex_from P (x # xs) i = (if P x then Some i else findIndex_from P xs (Suc i))"

definition findIndex :: "('a \<Rightarrow> bool) \<Rightarrow> 'a list \<Rightarrow> nat option" where
  "findIndex P xs = findIndex_from P xs 0"

text \<open>\<^verbatim>\<open>x || d\<close> on a number: \<open>0\<close> and \<^verbatim>\<open>NaN\<close> (and an absent value) are falsy.\<close>

definition or_default :: "real option \<Rightarrow> real \<Rightarrow> real" where
  "or_default x d = (case x of None \<Rightarrow> d | Some v \<Rightarrow> if v = 0 then d else v)"

text \<open>
  \<^verbatim>\<open>volIdx >= 0 ? volumeData[Math.max(0, volIdx - 1)]?.normalized || 0.5 : 0.5\<close>.
\<close>

definition volume_at :: "volume_point list \<Rightarrow> real \<Rightarrow> real" where
  "volume_at vd t =
     (case findIndex (\<lambda>v. time v \<ge> t) vd of
        None \<Rightarrow> 0.5
      | Some volIdx \<Rightarrow> or_default (normalized (vd ! (volIdx - 1))) 0.5)"

text \<open>
  The beat phase of the tick at time \<open>t\<close>: the beat that contains it and whether the tick
  lies in the ``on'' zone. With no beat at \<open>beatIndex\<close> the source computes \<^verbatim>\<open>NaN\<close> for
  \<open>stepIntoBeat\<close>, and \<^verbatim>\<open>NaN < onSteps\<close> is false.
\<close>

definition is_on_beat :: "real list \<Rightarrow> int \<Rightarrow> real \<Rightarrow> bool" where
  "is_on_beat beats onSteps t =
     (let beatIndex = beat_index_loop t beats 0 0
      in beatIndex < length beats \<and>
         (let beatStartTime = beats ! beatIndex;
              timeIntoBeat = t - beatStartTime;
              stepIntoBeat = round (timeIntoBeat / intervalSec)
          in stepIntoBeat < onSteps))"

text \<open>The mapping of an intensity fraction to the device range, rounded and clamped.\<close>

definition map_intensity :: "settings \<Rightarrow> real \<Rightarrow> int" where
  "map_intensity st intensity =
     (let range = maxIntensity st - minIntensity st;
          mappedIntensity = round (real_of_int (minIntensity st) + intensity * real_of_int range)
      in clamp mappedIntensity (minIntensity st) (maxIntensity st))"

text \<open>The body of the loop over \<open>step\<close>: the value pushed to \<open>allStrengths\<close>.\<close>

definition strength_at ::
  "settings \<Rightarrow> volume_point list \<Rightarrow> real list \<Rightarrow> int \<Rightarrow> nat \<Rightarrow> int" where
  "strength_at st vd beats onSteps step =
     (let t = real step * intervalSec;
          isOnBeat = is_on_beat beats onSteps t;
          vol = volume_at vd t;
          intensity = (if isOnBeat then min 1.0 (vol * onBeatBoost st) else breakIntensity st)
      in map_intensity st intensity)"

definition stepsPerBeat_of :: "real \<Rightarrow> int" where
  "stepsPerBeat_of bi = round (bi / intervalSec)"

definition onSteps_of :: "real \<Rightarrow> int" where
  "onSteps_of bi = max 1 (round (real_of_int (stepsPerBeat_of bi) * 0.75))"

definition offSteps_of :: "real \<Rightarrow> int" where
  "offSteps_of bi = max 1 (stepsPerBeat_of bi - onSteps_of bi)"

definition totalSteps_of :: "real \<Rightarrow> nat" where
  "totalSteps_of dur = nat \<lceil>dur / intervalSec\<rceil>"

text \<open>\<open>allStrengths\<close> after the loop over \<open>step\<close>, given the beat grid.\<close>

definition allStrengths_of :: "analysis_result \<Rightarrow> settings \<Rightarrow> real list \<Rightarrow> int list" where
  "allStrengths_of ar st beats =
     map (strength_at st (volumeData ar) beats (onSteps_of (beatInterval ar)))
         [0 ..< totalSteps_of (duration ar)]"

subsection \<open>\<^verbatim>\<open>PatternGenerator.generate\<close>: the chunks\<close>

text \<open>The chunk pushed for the values \<open>chunk\<close> that start at index \<open>idx\<close>.\<close>

definition make_pattern :: "string \<Rightarrow> nat \<Rightarrow> int list \<Rightarrow> lovense_command" where
  "make_pattern featureStr idx chunk =
     (let patternStartTime = real idx * intervalSec;
          patternDuration = real_of_int (round (real (length chunk) * intervalSec * 1000)) / 1000
      in \<lparr> command = ''Pattern'',
           rule = Some (''V:1;F:'' @ featureStr @ '';S:'' @ number_string 100 @ ''#''),
           strength = Some (join_semi (map number_string chunk)),
           action = None,
           timeSec = patternDuration,
           apiVer = 1,
           meta = Some
             \<lparr> startTime = real_of_int (round (patternStartTime * 100)) / 100,
               endTime = Some (real_of_int (round ((patternStartTime + patternDuration) * 100))
                               / 100),
               points = int (length chunk),
               intervalMs = 100,
               isResumeSlice = False \<rparr> \<rparr>)"

text \<open>\<^verbatim>\<open>while (idx < allStrengths.length) { ... idx += chunkSize; }\<close>\<close>

function chunk_loop ::
  "string \<Rightarrow> int list \<Rightarrow> nat \<Rightarrow> lovense_command list \<Rightarrow> lovense_command list" where
  "chunk_loop featureStr allStrengths idx patterns =
     (if idx < length allStrengths then
        (let remaining = length allStrengths - idx;
             chunkSize = min 50 remaining;
             chunk = js_slice allStrengths idx (idx + chunkSize)
         in chunk_loop featureStr allStrengths (idx + chunkSize)
              (patterns @ [make_pattern featureStr idx chunk]))
      else patterns)"
  by pat_completeness auto
termination
  by (relation "measure (\<lambda>(f, xs, idx, ps). length xs - idx)") auto

declare chunk_loop.simps [simp del]

text \<open>The encoder: the chunks of an intensity sequence.\<close>

definition encode_patterns :: "string \<Rightarrow> int list \<Rightarrow> lovense_command list" where
  "encode_patterns featureStr allStrengths = chunk_loop featureStr allStrengths 0 []"

text \<open>The intensity values of a chunk: the fields of its \<^verbatim>\<open>strength\<close> string.\<close>

definition chunk_values :: "lovense_command \<Rightarrow> string list" where
  "chunk_values p = (case strength p of None \<Rightarrow> [] | Some s \<Rightarrow> split_semi s)"

record generated =
  device :: string
  format :: string
  totalDuration :: real
  out_bpm :: int
  out_beatInterval :: real
  out_intervalMs :: nat
  stepsPerBeat :: int
  beatTiming :: string
  patternCount :: nat
  totalPoints :: nat
  out_settings :: settings
  patterns :: "lovense_command list"

text \<open>
  \<^verbatim>\<open>generate(analysisResult, settings)\<close>; \<open>None\<close> when the loop that builds the beat
  grid does not end.
\<close>

definition generate :: "analysis_result \<Rightarrow> settings \<Rightarrow> generated option" where
  "generate ar st =
     (let featureStr = (case deviceFeatures (deviceType st) of None \<Rightarrow> ''v'' | Some f \<Rightarrow> f)
      in case build_beats (duration ar) (beatInterval ar) 0 [] of
           None \<Rightarrow> None
         | Some beats \<Rightarrow>
             (let allStrengths = allStrengths_of ar st beats;
                  ps = encode_patterns featureStr allStrengths
              in Some
                   \<lparr> device = deviceType st,
                     format = ''official'',
                     totalDuration = duration ar,
                     out_bpm = bpm ar,
                     out_beatInterval = real_of_int (round (beatInterval ar * 1000)) / 1000,
                     out_intervalMs = 100,
                     stepsPerBeat = stepsPerBeat_of (beatInterval ar),
                     beatTiming = number_string (onSteps_of (beatInterval ar)) @ '' on / ''
                                  @ number_string (offSteps_of (beatInterval ar))
                                  @ '' off per beat'',
                     patternCount = length ps,
                     totalPoints = length allStrengths,
                     out_settings = st,
                     patterns = ps \<rparr>))"

subsection \<open>The analysis worker: the volume curve\<close>

text \<open>
  The worker takes the samples \<open>channelData\<close> and a sample rate; an audio buffer has a
  positive sample rate, and \<open>duration = channelData.length / sampleRate\<close>.
\<close>

definition analysisStep :: real where
  "analysisStep = dbl 0.01"

text \<open>
  The root mean square over \<open>[startSample, endSample)\<close>, the squares added up one by one
  in doubles; an empty window divides \<open>0\<close> by \<open>0\<close>, which is \<^verbatim>\<open>NaN\<close>. The square and the
  square root are taken as correctly rounded.
\<close>

definition rms_window :: "real list \<Rightarrow> nat \<Rightarrow> nat \<Rightarrow> real option" where
  "rms_window channelData startSample endSample =
     (let sum = foldl (\<lambda>sum i. dbl (sum + dbl ((channelData ! i)\<^sup>2))) 0
                  [startSample ..< endSample]
      in if endSample = startSample then None
         else Some (dbl (sqrt (dbl (sum / (real endSample - real startSample))))))"

text \<open>
  \<^verbatim>\<open>for (let t = 0; t < duration; t += analysisStep)\<close>, pushing \<open>{time: t, volume: rms}\<close>.
  The time is accumulated in doubles: once \<open>t\<close> is so large that \<open>t + analysisStep\<close> rounds
  back to \<open>t\<close> the loop cannot advance, so the result is optional. Inside the loop
  \<open>0 \<le> t\<close>, so \<open>startSample\<close> is a natural number.
\<close>

partial_function (option) volume_loop ::
  "real list \<Rightarrow> real \<Rightarrow> real \<Rightarrow> nat \<Rightarrow> real \<Rightarrow> (real \<times> real option) list
   \<Rightarrow> (real \<times> real option) list option" where
  "volume_loop channelData sampleRate dur windowSize t vd =
     (if t < dur then
        (let startSample = nat \<lfloor>dbl (t * sampleRate)\<rfloor>;
             endSample = min (startSample + windowSize) (length channelData);
             rms = rms_window channelData startSample endSample
         in volume_loop channelData sampleRate dur windowSize (dbl (t + analysisStep))
              (vd @ [(t, rms)]))
      else Some vd)"

text \<open>
  \<^verbatim>\<open>Math.max(...values)\<close>: \<^verbatim>\<open>-Infinity\<close> for no argument, \<^verbatim>\<open>NaN\<close> as soon as one
  argument is \<^verbatim>\<open>NaN\<close>.
\<close>

datatype js_max = NegInfinity | NotANumber | Finite real

definition max_step :: "js_max \<Rightarrow> real option \<Rightarrow> js_max" where
  "max_step acc v =
     (case acc of
        NotANumber \<Rightarrow> NotANumber
      | NegInfinity \<Rightarrow> (case v of None \<Rightarrow> NotANumber | Some x \<Rightarrow> Finite x)
      | Finite m \<Rightarrow> (case v of None \<Rightarrow> NotANumber | Some x \<Rightarrow> Finite (max m x)))"

definition math_max :: "real option list \<Rightarrow> js_max" where
  "math_max vs = foldl max_step NegInfinity vs"

text \<open>
  \<^verbatim>\<open>x / m\<close> as a finite number: \<open>None\<close> when the quotient is \<^verbatim>\<open>NaN\<close> or infinite,
  which is the case for a \<^verbatim>\<open>NaN\<close> dividend and for the divisor \<open>0\<close>.
\<close>

definition js_div :: "real option \<Rightarrow> real \<Rightarrow> real option" where
  "js_div x m =
     (case x of None \<Rightarrow> None | Some v \<Rightarrow> if m = 0 then None else Some (dbl (v / m)))"

text \<open>
  The second pass: \<^verbatim>\<open>if (maxVolume > 0) v.normalized = v.volume / maxVolume; else
  v.normalized = 0\<close>. A comparison with \<^verbatim>\<open>NaN\<close> or \<^verbatim>\<open>-Infinity > 0\<close> is false.
\<close>

definition normalize_volumes :: "(real \<times> real option) list \<Rightarrow> volume_point list" where
  "normalize_volumes vd =
     (let maxVolume = math_max (map snd vd);
          zeros = map (\<lambda>(t, v). \<lparr> time = t, volume = v, normalized = Some 0 \<rparr>) vd
      in case maxVolume of
           Finite m \<Rightarrow>
             if m > 0
             then map (\<lambda>(t, v). \<lparr> time = t, volume = v, normalized = js_div v m \<rparr>) vd
             else zeros
         | _ \<Rightarrow> zeros)"

text \<open>The volume-curve pass of the worker; \<open>None\<close> when the loop does not return.\<close>

definition volume_curve :: "real list \<Rightarrow> real \<Rightarrow> volume_point list option" where
  "volume_curve channelData sampleRate =
     (let dur = dbl (real (length channelData) / sampleRate);
          windowSize = nat \<lfloor>dbl (sampleRate * dbl 0.02)\<rfloor>
      in map_option normalize_volumes
           (volume_loop channelData sampleRate dur windowSize 0 []))"

subsection \<open>The analysis worker: \<^verbatim>\<open>detectOnsets\<close>\<close>

definition historySize :: nat where
  "historySize = 10"

definition frame_energy :: "real list \<Rightarrow> nat \<Rightarrow> nat \<Rightarrow> real" where
  "frame_energy channelData frameSize i =
     sqrt ((\<Sum>j\<leftarrow>[0 ..< frameSize]. (channelData ! (i + j))\<^sup>2) / real frameSize)"

text \<open>
  \<^verbatim>\<open>for (let i = 0; i < channelData.length - frameSize; i += hopSize)\<close>. With
  \<open>hopSize = 0\<close> (a sample rate below 200) the loop never ends once entered, so the result
  is an option; \<open>frameSize = 0\<close> implies \<open>hopSize = 0\<close>, so the \<^verbatim>\<open>NaN\<close> energy of an
  empty frame never reaches a returned result.
\<close>

partial_function (option) onset_loop ::
  "real list \<Rightarrow> real \<Rightarrow> nat \<Rightarrow> nat \<Rightarrow> nat \<Rightarrow> real \<Rightarrow> real list \<Rightarrow> real list
   \<Rightarrow> real list option" where
  "onset_loop channelData sampleRate frameSize hopSize i prevEnergy energyHistory onsets =
     (if int i < int (length channelData) - int frameSize then
        (let energy = frame_energy channelData frameSize i;
             pushed = energyHistory @ [energy];
             history = (if length pushed > historySize then tl pushed else pushed);
             avgEnergy = sum_list history / real (length history);
             onsets' =
               (if energy > avgEnergy * 1.5 \<and> energy > prevEnergy * 1.3 then
                  (let tm = real i / sampleRate
                   in if length onsets = 0 \<or> tm - last onsets > 0.05
                      then onsets @ [tm] else onsets)
                else onsets)
         in onset_loop channelData sampleRate frameSize hopSize (i + hopSize) energy history
              onsets')
      else Some onsets)"

definition detectOnsets :: "real list \<Rightarrow> real \<Rightarrow> real list option" where
  "detectOnsets channelData sampleRate =
     (let frameSize = nat \<lfloor>sampleRate * 0.01\<rfloor>;
          hopSize = frameSize div 2
      in onset_loop channelData sampleRate frameSize hopSize 0 0 [] [])"

subsection \<open>The analysis worker: \<^verbatim>\<open>estimateBPM\<close>\<close>

record tempo =
  bpm :: int
  beatInterval :: real

definition binSize :: real where
  "binSize = 0.02"

text \<open>
  The histogram object as its entries in insertion order:
  \<^verbatim>\<open>histogram[bin] = (histogram[bin] || 0) + 1\<close>.
\<close>

definition histogram_bump :: "(real \<times> nat) list \<Rightarrow> real \<Rightarrow> (real \<times> nat) list" where
  "histogram_bump h bin =
     (if bin \<in> fst ` set h
      then map (\<lambda>(k, c). if k = bin then (k, c + 1) else (k, c)) h
      else h @ [(bin, 1)])"

definition histogram_add :: "(real \<times> nat) list \<Rightarrow> real \<Rightarrow> (real \<times> nat) list" where
  "histogram_add h interval =
     (if interval \<ge> 0.25 \<and> interval \<le> 1.0
      then histogram_bump h (real_of_int (round (interval / binSize)) * binSize)
      else h)"

text \<open>
  \<^verbatim>\<open>Object.entries\<close>: keys that are array indices (non-negative integers) come first,
  in ascending order, then the other keys in insertion order.
\<close>

definition is_index_key :: "real \<Rightarrow> bool" where
  "is_index_key k = (0 \<le> k \<and> k = real_of_int \<lfloor>k\<rfloor>)"

definition object_entries :: "(real \<times> nat) list \<Rightarrow> (real \<times> nat) list" where
  "object_entries h =
     sort_key fst (filter (\<lambda>e. is_index_key (fst e)) h)
     @ filter (\<lambda>e. \<not> is_index_key (fst e)) h"

text \<open>The loop that keeps the first entry with the highest count.\<close>

definition pick_best :: "nat \<times> real \<Rightarrow> real \<times> nat \<Rightarrow> nat \<times> real" where
  "pick_best acc e =
     (case acc of (maxCount, bestInterval) \<Rightarrow>
        (case e of (interval, count) \<Rightarrow>
           if count > maxCount then (count, interval) else (maxCount, bestInterval)))"

text \<open>\<^verbatim>\<open>while (bpm < 80 && bpm > 0) bpm *= 2;\<close>\<close>

function double_bpm :: "real \<Rightarrow> real" where
  "double_bpm b = (if b < 80 \<and> b > 0 then double_bpm (b * 2) else b)"
  by pat_completeness auto
termination
proof (relation "measure (\<lambda>b. nat \<lceil>80 / b\<rceil>)", goal_cases)
  case 1
  show ?case by simp
next
  case (2 b)
  then have b: "0 < b" "b < 80" by auto
  then have x: "1 < 80 / b" by simp
  have "80 / (b * 2) = (80 / b) / 2" by simp
  moreover have "\<lceil>(80 / b) / 2\<rceil> < \<lceil>80 / b\<rceil>"
  proof -
    define x where "x = 80 / b"
    have "1 < x" using \<open>1 < 80 / b\<close> by (simp add: x_def)
    then have n: "2 \<le> \<lceil>x\<rceil>" by linarith
    have le: "x \<le> of_int \<lceil>x\<rceil>" by linarith
    have "(2::real) \<le> of_int \<lceil>x\<rceil>" using n by linarith
    with le have "x / 2 \<le> real_of_int \<lceil>x\<rceil> - 1" by linarith
    then have "x / 2 \<le> of_int (\<lceil>x\<rceil> - 1)" by simp
    then have "\<lceil>x / 2\<rceil> \<le> \<lceil>x\<rceil> - 1" by (rule ceiling_le)
    then show ?thesis by (simp add: x_def)
  qed
  moreover have "0 < \<lceil>80 / b\<rceil>" using x by linarith
  ultimately show ?case by simp
qed

declare double_bpm.simps [simp del]

text \<open>\<^verbatim>\<open>while (bpm > 180) bpm /= 2;\<close>\<close>

function halve_bpm :: "real \<Rightarrow> real" where
  "halve_bpm b = (if b > 180 then halve_bpm (b / 2) else b)"
  by pat_completeness auto
termination
proof (relation "measure (\<lambda>b. nat \<lceil>b\<rceil>)", goal_cases)
  case 1
  show ?case by simp
next
  case (2 b)
  then have "\<lceil>b / 2\<rceil> < \<lceil>b\<rceil>" by linarith
  moreover have "0 < \<lceil>b\<rceil>" using 2 by linarith
  ultimately show ?case by simp
qed

declare halve_bpm.simps [simp del]

definition onset_intervals :: "real list \<Rightarrow> real list" where
  "onset_intervals onsets = map (\<lambda>i. onsets ! i - onsets ! (i - 1)) [1 ..< length onsets]"

text \<open>The tempo before rounding: \<open>60 / bestInterval\<close>, folded by the two loops.\<close>

definition folded_bpm :: "real list \<Rightarrow> real" where
  "folded_bpm onsets =
     (let histogram = foldl histogram_add [] (onset_intervals onsets);
          best = foldl pick_best (0, 0.5) (object_entries histogram);
          bestInterval = snd best
      in halve_bpm (double_bpm (60 / bestInterval)))"

text \<open>\<^verbatim>\<open>estimateBPM(onsets, duration)\<close>; the duration is not used.\<close>

definition estimateBPM :: "real list \<Rightarrow> real \<Rightarrow> tempo" where
  "estimateBPM onsets dur =
     (if length onsets < 4 then \<lparr> bpm = 120, beatInterval = 0.5 \<rparr>
      else
        (let b = folded_bpm onsets;
             bi = 60 / b
         in \<lparr> bpm = round b, beatInterval = bi \<rparr>))"

subsection \<open>\<^verbatim>\<open>PatternGenerator.getLibraryPattern\<close>\<close>

definition patternLibrary :: "string \<Rightarrow> string option" where
  "patternLibrary = map_of
     [(''wave'', ''v:1;v:5;v:10;v:15;v:20;v:15;v:10;v:5''),
      (''pulse'', ''v:20;v:0;v:20;v:0;v:20;v:0''),
      (''escalate'', ''v:5;v:10;v:15;v:20;v:20;v:20''),
      (''earthquake'', ''v:3;v:20;v:8;v:18;v:5;v:15''),
      (''heartbeat'', ''v:12;v:16;v:4;v:12;v:16;v:4''),
      (''fireworks'', ''v:2;v:6;v:20;v:10;v:4;v:1''),
      (''gentle'', ''v:3;v:5;v:7;v:5;v:3;v:1''),
      (''intense'', ''v:15;v:18;v:20;v:20;v:18;v:15''),
      (''teasing'', ''v:8;v:12;v:8;v:4;v:8;v:12;v:8;v:4''),
      (''steady'', ''v:10;v:10;v:10;v:10;v:10;v:10'')]"

text \<open>\<^verbatim>\<open>toLowerCase\<close> on ASCII letters.\<close>

definition lower_char :: "char \<Rightarrow> char" where
  "lower_char c =
     (let n = (of_char c :: nat) in if 65 \<le> n \<and> n \<le> 90 then char_of (n + 32) else c)"

fun starts_with :: "string \<Rightarrow> string \<Rightarrow> bool" where
  "starts_with s [] = True"
| "starts_with [] (c # cs) = False"
| "starts_with (x # xs) (c # cs) = (x = c \<and> starts_with xs cs)"

text \<open>\<^verbatim>\<open>String.prototype.includes\<close>\<close>

fun js_includes :: "string \<Rightarrow> string \<Rightarrow> bool" where
  "js_includes [] sub = starts_with [] sub"
| "js_includes (x # xs) sub = (starts_with (x # xs) sub \<or> js_includes xs sub)"

text \<open>\<^verbatim>\<open>replace(/v:/g, 'o:')\<close>\<close>

fun replace_v :: "string \<Rightarrow> string" where
  "replace_v [] = []"
| "replace_v [c] = [c]"
| "replace_v (c # d # cs) =
     (if c = CHR ''v'' \<and> d = CHR '':'' then CHR ''o'' # CHR '':'' # replace_v cs
      else c # replace_v (d # cs))"

definition getLibraryPattern :: "string \<Rightarrow> string option \<Rightarrow> string option" where
  "getLibraryPattern name devType =
     (case patternLibrary name of
        None \<Rightarrow> None
      | Some pat \<Rightarrow>
          (case devType of
             None \<Rightarrow> Some pat
           | Some d \<Rightarrow>
               if d \<noteq> [] \<and> js_includes (map lower_char d) ''gush'' then Some (replace_v pat)
               else Some pat))"

subsection \<open>The player: state\<close>

text \<open>
  An entry of \<open>script.patterns\<close>, as \<^verbatim>\<open>convertOfficialFormat\<close> and
  \<^verbatim>\<open>loadScriptFromJson\<close> build it; \<open>sliced\<close> is set on the copy kept as active pattern.
\<close>

record playable =
  time :: "real option"
  patternName :: "string option"
  pattern :: "string option"
  duration :: "real option"
  rawCommand :: "lovense_command option"
  sliced :: bool

record script =
  stype :: string
  loaded :: bool
  patterns :: "playable list"

text \<open>A call \<^verbatim>\<open>LovenseApi.sendPattern(deviceId, pattern, duration, rawCommand)\<close>.\<close>

record api_send =
  sent_pattern :: "string option"
  sent_duration :: real
  sent_rawCommand :: "lovense_command option"

text \<open>
  The fields of \<open>Player\<close> that the scheduler reads and writes. \<open>item_script\<close> is the
  script of the current queue item, \<open>connected\<close> is
  \<^verbatim>\<open>LovenseApi.isConnected && LovenseApi.activeDeviceId\<close>, \<open>sent\<close> lists the calls of
  \<^verbatim>\<open>LovenseApi.sendPattern\<close>, oldest first. \<open>lastPatternTime\<close> is \<open>None\<close> when it is
  \<^verbatim>\<open>undefined\<close>.
\<close>

record player =
  isPlaying :: bool
  currentTime :: real
  lastPatternTime :: "real option"
  activePattern :: "playable option"
  item_script :: "script option"
  connected :: bool
  activeDeviceType :: "string option"
  sent :: "api_send list"

subsection \<open>The player: the scheduler\<close>

text \<open>\<^verbatim>\<open>p.time ?? p.rawCommand?._meta?.startTime ?? 0\<close>\<close>

definition pattern_start :: "playable \<Rightarrow> real" where
  "pattern_start p =
     (case playable.time p of
        Some t \<Rightarrow> t
      | None \<Rightarrow>
          (case rawCommand p of
             None \<Rightarrow> 0
           | Some rc \<Rightarrow> (case meta rc of None \<Rightarrow> 0 | Some m \<Rightarrow> startTime m)))"

text \<open>\<^verbatim>\<open>p.duration || p.rawCommand?.timeSec || 1\<close>\<close>

definition pattern_duration :: "playable \<Rightarrow> real" where
  "pattern_duration p =
     or_default (playable.duration p) (or_default (map_option timeSec (rawCommand p)) 1)"

text \<open>\<^verbatim>\<open>p.rawCommand?._meta?.endTime ?? (startTime + (p.duration || ...))\<close>\<close>

definition pattern_end :: "playable \<Rightarrow> real" where
  "pattern_end p =
     (let fallback = pattern_start p + pattern_duration p
      in case rawCommand p of
           None \<Rightarrow> fallback
         | Some rc \<Rightarrow>
             (case meta rc of
                None \<Rightarrow> fallback
              | Some m \<Rightarrow> (case endTime m of None \<Rightarrow> fallback | Some e \<Rightarrow> e)))"

definition covers :: "real \<Rightarrow> playable \<Rightarrow> bool" where
  "covers t p = (t \<ge> pattern_start p \<and> t < pattern_end p)"

text \<open>A string is truthy when it is present and not empty.\<close>

definition truthy :: "string option \<Rightarrow> bool" where
  "truthy s = (case s of None \<Rightarrow> False | Some x \<Rightarrow> x \<noteq> [])"

text \<open>\<^verbatim>\<open>Player.sendPattern(pattern)\<close>: the whole command is handed to the device API.\<close>

definition sendPattern :: "player \<Rightarrow> playable \<Rightarrow> player" where
  "sendPattern pl p =
     (let patternToSend =
            (if truthy (patternName p)
             then getLibraryPattern (the (patternName p)) (activeDeviceType pl)
             else playable.pattern p);
          rawCmd = (if truthy (patternName p) then None else rawCommand p);
          pl1 = pl\<lparr> activePattern := Some (p\<lparr> playable.pattern := patternToSend \<rparr>) \<rparr>
      in if connected pl1
         then pl1\<lparr> sent := sent pl1 @
                [\<lparr> sent_pattern = patternToSend,
                   sent_duration = or_default (playable.duration p)
                                     (or_default (map_option timeSec rawCmd) 1),
                   sent_rawCommand = rawCmd \<rparr>] \<rparr>
         else pl1)"

text \<open>\<^verbatim>\<open>Math.abs(this.lastPatternTime - patternStartTime) >= 0.05\<close>, false on \<^verbatim>\<open>NaN\<close>.\<close>

definition differs_from_last :: "real option \<Rightarrow> real \<Rightarrow> bool" where
  "differs_from_last l patternStartTime =
     (case l of None \<Rightarrow> False | Some x \<Rightarrow> \<bar>x - patternStartTime\<bar> \<ge> 0.05)"

definition PRE_SEND_MS :: real where
  "PRE_SEND_MS = 0.2"

text \<open>\<^verbatim>\<open>Player.checkPatternSync()\<close>\<close>

definition checkPatternSync :: "player \<Rightarrow> player" where
  "checkPatternSync pl =
     (case item_script pl of
        None \<Rightarrow> pl
      | Some sc \<Rightarrow>
          if stype sc \<noteq> ''scripted'' \<or> \<not> loaded sc then pl
          else if \<not> isPlaying pl then pl
          else
            (let ps = script.patterns sc
             in case findIndex (covers (currentTime pl)) ps of
                  None \<Rightarrow> pl
                | Some currentPatternIndex \<Rightarrow>
                    (let currentPattern = ps ! currentPatternIndex;
                         patternStartTime = pattern_start currentPattern;
                         patternEndTime = pattern_end currentPattern;
                         timeUntilEnd = patternEndTime - currentTime pl;
                         nextPatternIndex = currentPatternIndex + 1
                     in if timeUntilEnd \<le> PRE_SEND_MS \<and> timeUntilEnd > 0
                           \<and> nextPatternIndex < length ps
                           \<and> lastPatternTime pl \<noteq> Some (pattern_start (ps ! nextPatternIndex))
                        then sendPattern
                               (pl\<lparr> lastPatternTime :=
                                      Some (pattern_start (ps ! nextPatternIndex)) \<rparr>)
                               (ps ! nextPatternIndex)
                        else if differs_from_last (lastPatternTime pl) patternStartTime
                        then sendPattern (pl\<lparr> lastPatternTime := Some patternStartTime \<rparr>)
                               currentPattern
                        else pl)))"

text \<open>The \<^verbatim>\<open>timeupdate\<close> listener: it stores the video's time and runs the scheduler.\<close>

definition timeupdate :: "player \<Rightarrow> real \<Rightarrow> player" where
  "timeupdate pl t = checkPatternSync (pl\<lparr> currentTime := t \<rparr>)"

text \<open>A run of \<^verbatim>\<open>timeupdate\<close> events.\<close>

definition timeupdates :: "player \<Rightarrow> real list \<Rightarrow> player" where
  "timeupdates pl ts = foldl timeupdate pl ts"

text \<open>
  \<^verbatim>\<open>Player.sendPatternAtCurrentTime()\<close>, which \<^verbatim>\<open>startPatternPlayback\<close> calls when
  playback starts: it sends the resume slice of the chunk that covers the current time.
\<close>

definition sendPatternAtCurrentTime :: "player \<Rightarrow> js_error + player" where
  "sendPatternAtCurrentTime pl =
     (case item_script pl of
        None \<Rightarrow> Inr pl
      | Some sc \<Rightarrow>
          (case find (covers (currentTime pl)) (script.patterns sc) of
             None \<Rightarrow> Inr pl
           | Some currentPattern \<Rightarrow>
               (case rawCommand currentPattern of
                  None \<Rightarrow> Inr pl
                | Some rc \<Rightarrow>
                    if meta rc \<noteq> None \<and> truthy (strength rc) then
                      (case createResumePattern rc (currentTime pl) of
                         Inl e \<Rightarrow> Inl e
                       | Inr None \<Rightarrow> Inr pl
                       | Inr (Some slicedPattern) \<Rightarrow>
                           if connected pl then
                             Inr (pl\<lparr> sent := sent pl @
                                       [\<lparr> sent_pattern = playable.pattern currentPattern,
                                          sent_duration = timeSec slicedPattern,
                                          sent_rawCommand = Some slicedPattern \<rparr>],
                                     activePattern := Some (currentPattern\<lparr> sliced := True \<rparr>),
                                     lastPatternTime := playable.time currentPattern \<rparr>)
                           else Inr pl)
                    else Inr pl)))"

subsection \<open>Accessors and concrete inputs used in the statements below\<close>

text \<open>\<open>_meta.points\<close> of a chunk.\<close>

definition chunk_points :: "lovense_command \<Rightarrow> int" where
  "chunk_points p = (case meta p of None \<Rightarrow> 0 | Some m \<Rightarrow> points m)"

text \<open>The value of a decimal digit; it recovers a number from its decimal string.\<close>

definition digit_val :: "char \<Rightarrow> nat" where
  "digit_val c = of_char c - 48"

text \<open>A \<^verbatim>\<open>Function\<close> command without \<^verbatim>\<open>_meta\<close>.\<close>

definition example_function_command :: lovense_command where
  "example_function_command =
     \<lparr> command = ''Function'', rule = None, strength = None, action = Some ''Vibrate:10'',
       timeSec = 5, apiVer = 1, meta = None \<rparr>"

text \<open>A chunk of four values that starts at 5 s.\<close>

definition example_meta :: pattern_meta where
  "example_meta =
     \<lparr> startTime = 5, endTime = Some 5.4, points = 4, intervalMs = 100,
       isResumeSlice = False \<rparr>"

definition example_chunk :: lovense_command where
  "example_chunk =
     \<lparr> command = ''Pattern'', rule = Some ''V:1;F:v;S:100#'', strength = Some ''5;10;15;20'',
       action = None, timeSec = 0.4, apiVer = 1, meta = Some example_meta \<rparr>"

text \<open>
  A chunk as an imported script can carry it (\<^verbatim>\<open>convertOfficialFormat\<close> keeps \<^verbatim>\<open>_meta\<close> as it
  finds it): three values with a tick of 1 s from 0 s, but \<^verbatim>\<open>_meta.points\<close> is 2.
\<close>

definition short_count_meta :: pattern_meta where
  "short_count_meta =
     \<lparr> startTime = 0, endTime = Some 3, points = 2, intervalMs = 1000,
       isResumeSlice = False \<rparr>"

definition short_count_chunk :: lovense_command where
  "short_count_chunk =
     \<lparr> command = ''Pattern'', rule = Some ''V:1;F:v;S:1000#'', strength = Some ''1;2;3'',
       action = None, timeSec = 3, apiVer = 1, meta = Some short_count_meta \<rparr>"

text \<open>
  The number of values that \<^verbatim>\<open>createResumePattern\<close> skips (\<^verbatim>\<open>skipCommands\<close>), for the
  metadata of a chunk and a query time.
\<close>

definition resume_skip :: "pattern_meta \<Rightarrow> real \<Rightarrow> int" where
  "resume_skip m q = \<lfloor>dbl (dbl (q - startTime m) / dbl (intervalMs m / 1000))\<rfloor>"

text \<open>
  A 10-second track whose 100 intensities are all 7: \<^verbatim>\<open>generate\<close> encodes it as two chunks,
  \<open>[0, 5)\<close> and \<open>[5, 10)\<close>, and \<^verbatim>\<open>convertOfficialFormat\<close> turns each chunk into an entry
  with \<open>time\<close> the chunk's start, \<open>duration\<close> its \<open>timeSec\<close>, the display string
  \<^verbatim>\<open>Vibrate:7\<close> and the chunk itself as \<open>rawCommand\<close>.
\<close>

definition first_chunk :: lovense_command where
  "first_chunk = make_pattern ''v'' 0 (replicate 50 7)"

definition second_chunk :: lovense_command where
  "second_chunk = make_pattern ''v'' 50 (replicate 50 7)"

definition first_entry :: playable where
  "first_entry =
     \<lparr> time = Some 0, patternName = None, pattern = Some ''Vibrate:7'', duration = Some 5,
       rawCommand = Some first_chunk, sliced = False \<rparr>"

definition second_entry :: playable where
  "second_entry =
     \<lparr> time = Some 5, patternName = None, pattern = Some ''Vibrate:7'', duration = Some 5,
       rawCommand = Some second_chunk, sliced = False \<rparr>"

definition track_script :: script where
  "track_script =
     \<lparr> stype = ''scripted'', loaded = True, patterns = [first_entry, second_entry] \<rparr>"

text \<open>
  The player while it streams this track on a connected device: current time \<open>t\<close>, last
  pattern time \<open>l\<close>, active pattern \<open>a\<close> and the sends \<open>ss\<close> made so far.
\<close>

definition streaming ::
  "real \<Rightarrow> real option \<Rightarrow> playable option \<Rightarrow> api_send list \<Rightarrow> player" where
  "streaming t l a ss =
     \<lparr> isPlaying = True, currentTime = t, lastPatternTime = l, activePattern = a,
       item_script = Some track_script, connected = True, activeDeviceType = Some ''lush'',
       sent = ss \<rparr>"

text \<open>The call that hands a whole chunk of this track to the device API.\<close>

definition whole_chunk_send :: "lovense_command \<Rightarrow> api_send" where
  "whole_chunk_send c =
     \<lparr> sent_pattern = Some ''Vibrate:7'', sent_duration = 5, sent_rawCommand = Some c \<rparr>"

text \<open>Onsets every 0.52 s, and a sequence of fewer than four onsets.\<close>

definition steady_onsets :: "real list" where
  "steady_onsets = [0, 0.52, 1.04, 1.56]"

definition two_onsets :: "real list" where
  "two_onsets = [1.0, 1.5]"





text \<open>Every gap between consecutive elements exceeds 0.05 s.\<close>

fun spaced :: "real list \<Rightarrow> bool" where
  "spaced [] = True"
| "spaced [x] = True"
| "spaced (x # y # ys) = (y - x > 0.05 \<and> spaced (y # ys))"

text \<open>
  Sixteen samples at 200 Hz (frames of 2 samples, hop 1): two loud pairs, 11 samples apart,
  in a quiet signal.
\<close>

definition example_samples :: "real list" where
  "example_samples =
     [0.1, 0.1, 0.7, 0.7, 0.1, 0.1, 0.1, 0.1, 0.1, 0.1, 0.1, 0.1, 0.1, 0.7, 0.7, 0.1]"

text \<open>
  A tenth of a second of a signal of constant level 0.5, sampled at 44100 Hz, and the
  eleven times at which the volume loop takes a level of it: the first is 0 and each
  further one is the double sum of the one before and \<^verbatim>\<open>0.01\<close>.
\<close>

definition half_level_buffer :: "real list" where
  "half_level_buffer = replicate 4410 (1 / 2)"

definition tenth_second_times :: "real list" where
  "tenth_second_times =
     [0,
      5764607523034235 / 576460752303423488,
      5764607523034235 / 288230376151711744,
      1080863910568919 / 36028797018963968,
      5764607523034235 / 144115188075855872,
      3602879701896397 / 72057594037927936,
      8646911284551353 / 144115188075855872,
      1261007895663739 / 18014398509481984,
      5764607523034235 / 72057594037927936,
      3242591731706757 / 36028797018963968,
      7205759403792793 / 72057594037927936]"

section \<open>Verification\<close>

subsection \<open>Strings\<close>

lemma split_semi_no_semi: "semi \<notin> set x \<Longrightarrow> split_semi x = [x]"
  by (induction x) auto

lemma split_semi_append:
  "semi \<notin> set x \<Longrightarrow> split_semi (x @ semi # rest) = x # split_semi rest"
  by (induction x) auto

lemma split_join_semi:
  "xs \<noteq> [] \<Longrightarrow> \<forall>x\<in>set xs. semi \<notin> set x \<Longrightarrow> split_semi (join_semi xs) = xs"
  by (induction xs rule: join_semi.induct) (auto simp: split_semi_no_semi split_semi_append)

lemma digit_char_digit: "digit_char d \<in> set ''0123456789''"
  unfolding digit_char_def by (rule nth_mem) simp

lemma digit_char_not_semi: "digit_char d \<noteq> semi" "semi \<noteq> digit_char d"
proof -
  have "semi \<notin> set ''0123456789''"
    by (simp add: semi_def)
  with digit_char_digit [of d] show "digit_char d \<noteq> semi" "semi \<noteq> digit_char d" by auto
qed

lemma minus_not_semi: "semi \<noteq> CHR ''-''"
  by (simp add: semi_def)

lemma nat_string_no_semi: "semi \<notin> set (nat_string n)"
proof (induction n rule: nat_string.induct)
  case (1 n)
  show ?case
  proof (cases "n < 10")
    case True
    then show ?thesis by (subst nat_string.simps) (simp add: digit_char_not_semi)
  next
    case False
    with 1 show ?thesis by (subst nat_string.simps) (simp add: digit_char_not_semi)
  qed
qed

lemma number_string_no_semi: "semi \<notin> set (number_string i)"
  by (simp add: number_string_def nat_string_no_semi minus_not_semi)

lemma digit_val_digit_char: "digit_val (digit_char d) = d mod 10"
proof -
  define k where "k = d mod 10"
  have "k < 10" by (simp add: k_def)
  then have "k = 0 \<or> k = 1 \<or> k = 2 \<or> k = 3 \<or> k = 4 \<or> k = 5 \<or> k = 6 \<or> k = 7 \<or> k = 8 \<or> k = 9"
    by presburger
  then have "of_char (''0123456789'' ! k) - 48 = k"
    by (elim disjE) simp_all
  then show ?thesis
    unfolding digit_char_def digit_val_def k_def .
qed

lemma nat_string_value: "foldl (\<lambda>a c. 10 * a + digit_val c) 0 (nat_string n) = n"
proof (induction n rule: nat_string.induct)
  case (1 n)
  show ?case
  proof (cases "n < 10")
    case True
    then show ?thesis by (subst nat_string.simps) (simp add: digit_val_digit_char)
  next
    case False
    with 1 show ?thesis by (subst nat_string.simps) (simp add: digit_val_digit_char)
  qed
qed

lemma nat_string_inj: "nat_string a = nat_string b \<Longrightarrow> a = b"
  by (metis nat_string_value)

lemma nat_string_digits: "set (nat_string n) \<subseteq> set ''0123456789''"
proof (induction n rule: nat_string.induct)
  case (1 n)
  show ?case
  proof (cases "n < 10")
    case True
    then show ?thesis using digit_char_digit [of n] by (subst nat_string.simps) simp
  next
    case False
    with 1 digit_char_digit [of n] show ?thesis by (subst nat_string.simps) simp
  qed
qed

lemma nat_string_no_minus: "nat_string b \<noteq> CHR ''-'' # s"
proof
  assume "nat_string b = CHR ''-'' # s"
  then have "CHR ''-'' \<in> set (nat_string b)" by simp
  then have "CHR ''-'' \<in> set ''0123456789''" using nat_string_digits by blast
  then show False by simp
qed

lemma number_string_inj: "inj number_string"
proof (rule injI)
  fix i j :: int
  assume eq: "number_string i = number_string j"
  show "i = j"
  proof (cases "i < 0"; cases "j < 0")
    assume "i < 0" "j < 0"
    with eq have "nat (- i) = nat (- j)" by (simp add: number_string_def nat_string_inj)
    with \<open>i < 0\<close> \<open>j < 0\<close> show ?thesis by linarith
  next
    assume "i < 0" "\<not> j < 0"
    with eq show ?thesis
      using nat_string_no_minus [of "nat j"] by (simp add: number_string_def) metis
  next
    assume "\<not> i < 0" "j < 0"
    with eq show ?thesis
      using nat_string_no_minus [of "nat i"] by (simp add: number_string_def)
  next
    assume "\<not> i < 0" "\<not> j < 0"
    with eq have "nat i = nat j" by (simp add: number_string_def nat_string_inj)
    with \<open>\<not> i < 0\<close> \<open>\<not> j < 0\<close> show ?thesis by linarith
  qed
qed

subsection \<open>Double arithmetic\<close>

lemma quantum_pos: "0 < quantum x"
  by (simp add: quantum_def)

lemma round_half_even_int: "round_half_even (of_int n) = n"
  by (simp add: round_half_even_def)

lemma round_half_even_nonneg: "0 \<le> y \<Longrightarrow> 0 \<le> round_half_even y"
  by (auto simp: round_half_even_def Let_def)

lemma round_half_even_nonpos: "y \<le> 0 \<Longrightarrow> round_half_even y \<le> 0"
proof -
  assume y: "y \<le> 0"
  show ?thesis
  proof (cases "y = of_int \<lfloor>y\<rfloor>")
    case True
    then have "round_half_even y = \<lfloor>y\<rfloor>" by (simp add: round_half_even_def)
    then show ?thesis using y by simp
  next
    case False
    then have "of_int \<lfloor>y\<rfloor> < y" by linarith
    then have "\<lfloor>y\<rfloor> < 0" using y by linarith
    then show ?thesis by (auto simp: round_half_even_def Let_def)
  qed
qed

lemma dbl_nonneg: "0 \<le> x \<Longrightarrow> 0 \<le> dbl x"
  using quantum_pos [of x] round_half_even_nonneg [of "x / quantum x"]
  by (simp add: dbl_def)

lemma dbl_nonpos: "x \<le> 0 \<Longrightarrow> dbl x \<le> 0"
  using quantum_pos [of x] round_half_even_nonpos [of "x / quantum x"]
  by (simp add: dbl_def mult_le_0_iff divide_le_0_iff)

lemma quantum_normal:
  assumes "2 powi e \<le> \<bar>x\<bar>" and "\<bar>x\<bar> < 2 powi (e + 1)" and "- 1022 \<le> e"
  shows "quantum x = 2 powi (e - 52)"
proof -
  have "(0::real) < 2 powi e" by simp
  then have pos: "0 < \<bar>x\<bar>" using assms(1) by linarith
  have "\<bar>x\<bar> < 2 powr (of_int e + 1)"
    using assms(2) powr_real_of_int' [of "2::real" "e + 1"] by simp
  then have "\<lfloor>log 2 \<bar>x\<bar>\<rfloor> = e"
    using assms(1) pos by (simp add: floor_log_eq_powr_iff powr_real_of_int')
  then show ?thesis using assms(3) by (simp add: quantum_def)
qed

lemma dbl_normal:
  assumes "2 powi e \<le> \<bar>x\<bar>" and "\<bar>x\<bar> < 2 powi (e + 1)" and "- 1022 \<le> e"
    and "round_half_even (x / 2 powi (e - 52)) = n"
  shows "dbl x = of_int n * 2 powi (e - 52)"
proof -
  have "(0::real) < 2 powi e" by simp
  then have "0 < \<bar>x\<bar>" using assms(1) by linarith
  then have "x \<noteq> 0" by simp
  then show ?thesis using quantum_normal [OF assms(1,2,3)] assms(4) by (simp add: dbl_def)
qed

lemma round_half_even_floor: "\<lfloor>y\<rfloor> \<le> round_half_even y"
  by (simp add: round_half_even_def Let_def)

lemma quantum_exponent: "\<exists>k. - 1074 \<le> k \<and> quantum x = 2 powi k"
proof -
  have "- 1074 \<le> max \<lfloor>log 2 \<bar>x\<bar>\<rfloor> (- 1022) - 52" by simp
  then show ?thesis unfolding quantum_def by blast
qed

lemma power_int_grid:
  assumes "- 1074 \<le> k"
  shows "(2::real) powi k = of_int (2 ^ nat (k + 1074)) * 2 powi (- 1074)"
proof -
  have "(2::real) powi k = 2 powi ((k + 1074) + (- 1074))" by simp
  also have "\<dots> = 2 powi (k + 1074) * 2 powi (- 1074)"
    by (rule power_int_add) simp
  also have "(2::real) powi (k + 1074) = 2 ^ nat (k + 1074)"
    using assms by (simp add: power_int_def)
  finally show ?thesis by simp
qed

lemma dbl_grid: "\<exists>j. dbl x = of_int j * 2 powi (- 1074)"
proof (cases "x = 0")
  case True
  then have "dbl x = of_int 0 * 2 powi (- 1074)" by (simp add: dbl_def)
  then show ?thesis by blast
next
  case False
  obtain k where k: "- 1074 \<le> k" "quantum x = 2 powi k"
    using quantum_exponent by blast
  have "dbl x = of_int (round_half_even (x / quantum x)) * 2 powi k"
    using False k(2) by (simp add: dbl_def)
  also have "\<dots> = of_int (round_half_even (x / quantum x) * 2 ^ nat (k + 1074))
                    * 2 powi (- 1074)"
    by (subst power_int_grid [OF k(1)]) simp
  finally show ?thesis by blast
qed

lemma quantum_le:
  assumes "2 powi (- 1074) \<le> x"
  shows "quantum x \<le> x"
proof -
  have "(0::real) < 2 powi (- 1074)" by simp
  then have pos: "0 < x" using assms by linarith
  define e where "e = \<lfloor>log 2 x\<rfloor>"
  have "of_int e \<le> log 2 x" by (simp add: e_def)
  then have "2 powr (of_int e) \<le> x" using pos by (simp add: le_log_iff)
  then have e: "2 powi e \<le> x" by (simp add: powr_real_of_int')
  show ?thesis
  proof (cases "- 1022 \<le> e")
    case True
    then have "quantum x = 2 powi (e - 52)" using pos by (simp add: quantum_def e_def)
    moreover have "(2::real) powi (e - 52) \<le> 2 powi e"
      by (rule power_int_increasing) simp_all
    ultimately show ?thesis using e by simp
  next
    case False
    then have "quantum x = 2 powi (- 1074)" using pos by (simp add: quantum_def e_def)
    then show ?thesis using assms by simp
  qed
qed

lemma dbl_pos:
  assumes "2 powi (- 1074) \<le> x"
  shows "0 < dbl x"
proof -
  have "(0::real) < 2 powi (- 1074)" by simp
  then have pos: "0 < x" using assms by linarith
  have "1 \<le> x / quantum x" using quantum_le [OF assms] quantum_pos [of x] by simp
  then have "1 \<le> \<lfloor>x / quantum x\<rfloor>" by simp
  then have "1 \<le> round_half_even (x / quantum x)"
    using round_half_even_floor [of "x / quantum x"] by linarith
  then have "0 < of_int (round_half_even (x / quantum x)) * quantum x"
    using quantum_pos [of x] by simp
  then show ?thesis using pos by (simp add: dbl_def)
qed

lemma dbl_difference_pos:
  assumes "dbl b < dbl a"
  shows "0 < dbl (dbl a - dbl b)"
proof -
  obtain i j where i: "dbl a = of_int i * 2 powi (- 1074)"
    and j: "dbl b = of_int j * 2 powi (- 1074)"
    using dbl_grid by blast
  have g: "(0::real) < 2 powi (- 1074)" by simp
  have d: "dbl a - dbl b = of_int (i - j) * 2 powi (- 1074)"
    unfolding i j by (simp add: algebra_simps)
  have "of_int j * (2::real) powi (- 1074) < of_int i * 2 powi (- 1074)"
    using assms unfolding i j .
  then have "j < i" using g by (simp only: mult_less_cancel_right_pos of_int_less_iff)
  then have "1 \<le> i - j" by simp
  then have "(1::real) \<le> of_int (i - j)" by (simp only: of_int_1_le_iff)
  then have "1 * 2 powi (- 1074) \<le> of_int (i - j) * (2::real) powi (- 1074)"
    using g by (simp only: mult_le_cancel_right_pos)
  then have "2 powi (- 1074) \<le> dbl a - dbl b" unfolding d by simp
  then show ?thesis by (rule dbl_pos)
qed

lemma dbl_exact:
  assumes "\<bar>m\<bar> < 2 ^ 53" and "- 1074 \<le> k"
  shows "dbl (of_int m * 2 powi k) = of_int m * 2 powi k"
proof (cases "m = 0")
  case True
  then show ?thesis by (simp add: dbl_def)
next
  case False
  define x :: real where "x = of_int m * 2 powi k"
  have x0: "x \<noteq> 0" using False by (simp add: x_def)
  then have pos: "0 < \<bar>x\<bar>" by simp
  define e where "e = \<lfloor>log 2 \<bar>x\<bar>\<rfloor>"
  have "of_int e \<le> log 2 \<bar>x\<bar>" by (simp add: e_def)
  then have "2 powr (of_int e) \<le> \<bar>x\<bar>" using pos by (simp add: le_log_iff)
  then have e: "2 powi e \<le> \<bar>x\<bar>" by (simp add: powr_real_of_int')
  have "\<bar>x\<bar> = of_int \<bar>m\<bar> * 2 powi k" by (simp add: x_def abs_mult)
  also have "\<dots> < 2 ^ 53 * 2 powi k"
  proof -
    have "(of_int \<bar>m\<bar> :: real) < of_int (2 ^ 53)" using assms(1) by (simp only: of_int_less_iff)
    then show ?thesis by simp
  qed
  also have "\<dots> = 2 powi (53 + k)"
    by (subst power_int_add) simp_all
  finally have "(2::real) powi e < 2 powi (53 + k)" using e by simp
  have ek: "e < 53 + k"
  proof (rule ccontr)
    assume "\<not> e < 53 + k"
    then have "(2::real) powi (53 + k) \<le> 2 powi e"
      by (intro power_int_increasing) simp_all
    then show False using \<open>(2::real) powi e < 2 powi (53 + k)\<close> by simp
  qed
  define qe where "qe = max e (- 1022) - 52"
  have qek: "qe \<le> k" using ek assms(2) by (simp add: qe_def)
  have q: "quantum x = 2 powi qe" by (simp add: quantum_def qe_def e_def)
  have "(2::real) powi k = 2 powi ((k - qe) + qe)" by simp
  also have "\<dots> = 2 powi (k - qe) * 2 powi qe"
    by (rule power_int_add) simp
  also have "(2::real) powi (k - qe) = of_int (2 ^ nat (k - qe))"
    using qek by (simp add: power_int_def)
  finally have pk: "(2::real) powi k = of_int (2 ^ nat (k - qe)) * 2 powi qe" .
  have "x / quantum x = of_int m * (of_int (2 ^ nat (k - qe)) * 2 powi qe) / 2 powi qe"
    unfolding q by (simp only: x_def pk)
  also have "\<dots> = of_int (m * 2 ^ nat (k - qe))" by simp
  finally have "x / quantum x = of_int (m * 2 ^ nat (k - qe))" .
  then have "round_half_even (x / quantum x) = m * 2 ^ nat (k - qe)"
    by (simp only: round_half_even_int)
  then have "dbl x = of_int (m * 2 ^ nat (k - qe)) * quantum x"
    using x0 by (simp add: dbl_def)
  also have "\<dots> = x" using \<open>x / quantum x = of_int (m * 2 ^ nat (k - qe))\<close> quantum_pos [of x]
    by (metis nonzero_eq_divide_eq less_irrefl)
  finally show ?thesis unfolding x_def .
qed

subsection \<open>The resume slice\<close>

text \<open>
  C10. A pattern object without \<^verbatim>\<open>_meta\<close> (a \<^verbatim>\<open>Function\<close> command, an imported simple
  pattern) is returned as it is, for every query time: the result is never \<^verbatim>\<open>null\<close>,
  never a slice and never an error.
\<close>

theorem createResumePattern_no_meta:
  "meta p = None \<Longrightarrow> createResumePattern p q = Inr (Some p)"
  by (simp add: createResumePattern_def)

theorem createResumePattern_no_meta_witness:
  "createResumePattern example_function_command 2.5 = Inr (Some example_function_command)"
  using createResumePattern_no_meta [of example_function_command "2.5"]
  by (simp add: example_function_command_def)

text \<open>The roundings that the evaluations of the resume slice below use.\<close>

lemma resume_roundings:
  "dbl (53 / 10) = 5967269506265907 / 1125899906842624"
  "dbl (27 / 5) = 3039929748475085 / 562949953421312"
  "dbl (17 / 10) = 7656119366529843 / 4503599627370496"
  "dbl (1 / 10) = 3602879701896397 / 36028797018963968"
  "dbl (337769972052787 / 1125899906842624) = 337769972052787 / 1125899906842624"
  "dbl (10808639105689184 / 3602879701896397) = 1688849860263935 / 562949953421312"
  "dbl (3602879701896397 / 18014398509481984) = 3602879701896397 / 18014398509481984"
  "dbl (450359962737049625 / 2251799813685248) = 200"
  "dbl (1 / 5) = 3602879701896397 / 18014398509481984"
  "dbl (225179981368525 / 562949953421312) = 225179981368525 / 562949953421312"
  "dbl (14411518807585600 / 3602879701896397) = 1125899906842625 / 281474976710656"
  "dbl (9 / 4) = 9 / 4"
  "dbl (81064793292668928 / 3602879701896397) = 45 / 2"
  "dbl (25220157913274779 / 9007199254740992) = 6305039478318695 / 2251799813685248"
  "dbl (788129934789836875 / 281474976710656) = 6157265115545601 / 2199023255552"
  "dbl (14 / 5) = 3152519739159347 / 1125899906842624"
  "dbl (7656119366529843 / 4503599627370496) = 7656119366529843 / 4503599627370496"
  "dbl (61248954932238744 / 3602879701896397) = 17"
  "dbl (118895030162581101 / 36028797018963968) = 7430939385161319 / 2251799813685248"
  "dbl (928867423145164875 / 281474976710656) = 7256776743321601 / 2199023255552"
  "dbl (33 / 10) = 3715469692580659 / 1125899906842624"
  "dbl 1 = 1"
  "dbl 2 = 2"
proof -
  show "dbl (53 / 10) = 5967269506265907 / 1125899906842624"
    by (rule dbl_normal [where e = "2" and n = 5967269506265907, THEN trans])
      (simp_all add: round_half_even_def)
  show "dbl (27 / 5) = 3039929748475085 / 562949953421312"
    by (rule dbl_normal [where e = "2" and n = 6079859496950170, THEN trans])
      (simp_all add: round_half_even_def)
  show "dbl (17 / 10) = 7656119366529843 / 4503599627370496"
    by (rule dbl_normal [where e = "0" and n = 7656119366529843, THEN trans])
      (simp_all add: round_half_even_def)
  show "dbl (1 / 10) = 3602879701896397 / 36028797018963968"
    by (rule dbl_normal [where e = "-4" and n = 7205759403792794, THEN trans])
      (simp_all add: round_half_even_def)
  show "dbl (337769972052787 / 1125899906842624) = 337769972052787 / 1125899906842624"
    by (rule dbl_normal [where e = "-2" and n = 5404319552844592, THEN trans])
      (simp_all add: round_half_even_def)
  show "dbl (10808639105689184 / 3602879701896397) = 1688849860263935 / 562949953421312"
    by (rule dbl_normal [where e = "1" and n = 6755399441055740, THEN trans])
      (simp_all add: round_half_even_def)
  show "dbl (3602879701896397 / 18014398509481984) = 3602879701896397 / 18014398509481984"
    by (rule dbl_normal [where e = "-3" and n = 7205759403792794, THEN trans])
      (simp_all add: round_half_even_def)
  show "dbl (450359962737049625 / 2251799813685248) = 200"
    by (rule dbl_normal [where e = "7" and n = 7036874417766400, THEN trans])
      (simp_all add: round_half_even_def)
  show "dbl (1 / 5) = 3602879701896397 / 18014398509481984"
    by (rule dbl_normal [where e = "-3" and n = 7205759403792794, THEN trans])
      (simp_all add: round_half_even_def)
  show "dbl (225179981368525 / 562949953421312) = 225179981368525 / 562949953421312"
    by (rule dbl_normal [where e = "-2" and n = 7205759403792800, THEN trans])
      (simp_all add: round_half_even_def)
  show "dbl (14411518807585600 / 3602879701896397) = 1125899906842625 / 281474976710656"
    by (rule dbl_normal [where e = "2" and n = 4503599627370500, THEN trans])
      (simp_all add: round_half_even_def)
  show "dbl (9 / 4) = 9 / 4"
    by (rule dbl_normal [where e = "1" and n = 5066549580791808, THEN trans])
      (simp_all add: round_half_even_def)
  show "dbl (81064793292668928 / 3602879701896397) = 45 / 2"
    by (rule dbl_normal [where e = "4" and n = 6333186975989760, THEN trans])
      (simp_all add: round_half_even_def)
  show "dbl (25220157913274779 / 9007199254740992) = 6305039478318695 / 2251799813685248"
    by (rule dbl_normal [where e = "1" and n = 6305039478318695, THEN trans])
      (simp_all add: round_half_even_def)
  show "dbl (788129934789836875 / 281474976710656) = 6157265115545601 / 2199023255552"
    by (rule dbl_normal [where e = "11" and n = 6157265115545601, THEN trans])
      (simp_all add: round_half_even_def)
  show "dbl (14 / 5) = 3152519739159347 / 1125899906842624"
    by (rule dbl_normal [where e = "1" and n = 6305039478318694, THEN trans])
      (simp_all add: round_half_even_def)
  show "dbl (7656119366529843 / 4503599627370496) = 7656119366529843 / 4503599627370496"
    by (rule dbl_normal [where e = "0" and n = 7656119366529843, THEN trans])
      (simp_all add: round_half_even_def)
  show "dbl (61248954932238744 / 3602879701896397) = 17"
    by (rule dbl_normal [where e = "4" and n = 4785074604081152, THEN trans])
      (simp_all add: round_half_even_def)
  show "dbl (118895030162581101 / 36028797018963968) = 7430939385161319 / 2251799813685248"
    by (rule dbl_normal [where e = "1" and n = 7430939385161319, THEN trans])
      (simp_all add: round_half_even_def)
  show "dbl (928867423145164875 / 281474976710656) = 7256776743321601 / 2199023255552"
    by (rule dbl_normal [where e = "11" and n = 7256776743321601, THEN trans])
      (simp_all add: round_half_even_def)
  show "dbl (33 / 10) = 3715469692580659 / 1125899906842624"
    by (rule dbl_normal [where e = "1" and n = 7430939385161318, THEN trans])
      (simp_all add: round_half_even_def)
  show "dbl 1 = 1"
    by (rule dbl_normal [where e = "0" and n = 4503599627370496, THEN trans])
      (simp_all add: round_half_even_def)
  show "dbl 2 = 2"
    by (rule dbl_normal [where e = "1" and n = 4503599627370496, THEN trans])
      (simp_all add: round_half_even_def)
qed

lemma split_semi_nonempty: "split_semi s \<noteq> []"
  by (induction s) (auto split: list.splits)

lemma js_slice_from_nonempty:
  assumes "xs \<noteq> []" and "k < int (length xs)"
  shows "js_slice_from xs k \<noteq> []"
proof (cases "k < 0")
  case neg: True
  show ?thesis
  proof (cases "int (length xs) + k \<le> 0")
    case True
    then have "max (int (length xs) + k) 0 = 0" by (simp add: max_def)
    then have "js_slice_from xs k = xs" using neg by (simp add: js_slice_from_def)
    then show ?thesis using assms(1) by simp
  next
    case False
    then have "max (int (length xs) + k) 0 = int (length xs) + k" by (simp add: max_def)
    moreover have "nat (int (length xs) + k) < length xs" using neg False by linarith
    ultimately show ?thesis using neg by (simp add: js_slice_from_def)
  qed
next
  case False
  then have "nat k < length xs" using assms(2) by linarith
  then show ?thesis using False by (simp add: js_slice_from_def)
qed

lemma createResumePattern_before:
  assumes "meta p = Some m" and "dbl (q - startTime m) \<le> 0"
  shows "createResumePattern p q = Inr (Some p)"
  using assms by (simp add: createResumePattern_def Let_def)

lemma createResumePattern_elapsed:
  assumes "meta p = Some m" and "0 < dbl (q - startTime m)"
    and "dbl (intervalMs m / 1000) = tick"
    and "\<lfloor>dbl (dbl (q - startTime m) / tick)\<rfloor> = skip"
    and "strength p = Some s"
    and "tick = 0 \<or> points m \<le> skip \<or> js_slice_from (split_semi s) skip = []"
  shows "createResumePattern p q = Inr None"
  using assms by (auto simp: createResumePattern_def Let_def)

lemma createResumePattern_suffix:
  assumes "meta p = Some m" and "0 < dbl (q - startTime m)"
    and "dbl (intervalMs m / 1000) = tick" and "tick \<noteq> 0"
    and "\<lfloor>dbl (dbl (q - startTime m) / tick)\<rfloor> = skip"
    and "strength p = Some s" and "skip < points m"
    and "js_slice_from (split_semi s) skip = rest" and "rest \<noteq> []"
  shows "createResumePattern p q =
           Inr (Some (p\<lparr> strength := Some (join_semi rest),
                       timeSec := dbl (real_of_int (round (dbl (dbl (real (length rest) * tick)
                                    * 1000))) / 1000),
                       meta := Some (m\<lparr> startTime := q,
                                        points := int (length rest),
                                        isResumeSlice := True \<rparr>) \<rparr>))"
  using assms by (simp add: createResumePattern_def Let_def)

lemma js_slice_from_empty:
  assumes "xs \<noteq> []"
  shows "(js_slice_from xs k = []) = (int (length xs) \<le> k)"
proof (cases "k < int (length xs)")
  case True
  then show ?thesis using js_slice_from_nonempty [OF assms True] by simp
next
  case False
  then have "0 \<le> k" "length xs \<le> nat k" by linarith+
  then show ?thesis using False by (simp add: js_slice_from_def)
qed

text \<open>
  C7 (amended). For a chunk with metadata and every query time: a query at or before the
  chunk's start returns the chunk unchanged, as does every query whose offset
  \<open>queryTime - start\<close>, computed in doubles, is not positive. When the offset is positive
  (for doubles: when the query is after the start, \<open>dbl_difference_pos\<close>), then with
  \<open>skip = \<lfloor>(queryTime - start) / tick\<rfloor>\<close>, where the tick \<open>intervalMs / 1000\<close>, the difference
  and the quotient are each rounded to a double as in the code: the result is \<^verbatim>\<open>null\<close>
  (not an error) when the tick is zero (the quotient is infinite), when \<open>skip\<close> reaches
  \<^verbatim>\<open>_meta.points\<close> or when \<^verbatim>\<open>slice(skip)\<close> leaves no value; otherwise it is the chunk with
  exactly the values \<^verbatim>\<open>slice(skip)\<close>, its start reset to the query time and its duration
  and point count recomputed from the remaining values. For a tick that is not negative
  \<open>skip\<close> is not negative and \<^verbatim>\<open>slice(skip)\<close> is the suffix from index \<open>skip\<close> on; and no
  value remains exactly when \<open>skip\<close> reaches the number of values, which is the bound of
  the claim for a chunk whose \<^verbatim>\<open>_meta.points\<close> is its number of values.
\<close>

theorem createResumePattern_slice:
  assumes m: "meta p = Some m"
    and s: "strength p = Some s"
  shows
    "(q \<le> startTime m \<longrightarrow> createResumePattern p q = Inr (Some p)) \<and>
     (dbl (q - startTime m) \<le> 0 \<longrightarrow> createResumePattern p q = Inr (Some p)) \<and>
     (0 < dbl (q - startTime m) \<longrightarrow>
        (let tick = dbl (intervalMs m / 1000);
             skip = \<lfloor>dbl (dbl (q - startTime m) / tick)\<rfloor>;
             vals = split_semi s;
             rest = js_slice_from vals skip
         in (tick = 0 \<or> points m \<le> skip \<or> rest = [] \<longrightarrow>
               createResumePattern p q = Inr None) \<and>
            (tick \<noteq> 0 \<and> skip < points m \<and> rest \<noteq> [] \<longrightarrow>
               createResumePattern p q =
                 Inr (Some (p\<lparr> strength := Some (join_semi rest),
                             timeSec := dbl (real_of_int (round (dbl (dbl (real (length rest)
                                          * tick) * 1000))) / 1000),
                             meta := Some (m\<lparr> startTime := q,
                                              points := int (length rest),
                                              isResumeSlice := True \<rparr>) \<rparr>))) \<and>
            (0 \<le> intervalMs m \<longrightarrow> 0 \<le> skip \<and> rest = drop (nat skip) vals) \<and>
            (rest = []) = (int (length vals) \<le> skip)))"
proof (intro conjI impI)
  assume "q \<le> startTime m"
  then have "dbl (q - startTime m) \<le> 0" by (intro dbl_nonpos) simp
  then show "createResumePattern p q = Inr (Some p)"
    by (rule createResumePattern_before [OF m])
next
  assume "dbl (q - startTime m) \<le> 0"
  then show "createResumePattern p q = Inr (Some p)"
    by (rule createResumePattern_before [OF m])
next
  assume q: "0 < dbl (q - startTime m)"
  define tick where "tick = dbl (intervalMs m / 1000)"
  define skip where "skip = \<lfloor>dbl (dbl (q - startTime m) / tick)\<rfloor>"
  define rest where "rest = js_slice_from (split_semi s) skip"
  have tk: "dbl (intervalMs m / 1000) = tick" by (simp add: tick_def)
  have sk: "\<lfloor>dbl (dbl (q - startTime m) / tick)\<rfloor> = skip" by (simp add: skip_def)
  have rs: "js_slice_from (split_semi s) skip = rest" by (simp add: rest_def)
  have a: "tick = 0 \<or> points m \<le> skip \<or> rest = [] \<longrightarrow>
             createResumePattern p q = Inr None"
    using createResumePattern_elapsed [OF m q tk sk s] rs by blast
  have b: "tick \<noteq> 0 \<and> skip < points m \<and> rest \<noteq> [] \<longrightarrow>
             createResumePattern p q =
               Inr (Some (p\<lparr> strength := Some (join_semi rest),
                           timeSec := dbl (real_of_int (round (dbl (dbl (real (length rest)
                                        * tick) * 1000))) / 1000),
                           meta := Some (m\<lparr> startTime := q,
                                            points := int (length rest),
                                            isResumeSlice := True \<rparr>) \<rparr>))"
    using createResumePattern_suffix [OF m q tk _ sk s _ rs] by blast
  have c: "0 \<le> intervalMs m \<longrightarrow> 0 \<le> skip \<and> rest = drop (nat skip) (split_semi s)"
  proof
    assume "0 \<le> intervalMs m"
    then have "0 \<le> tick" unfolding tick_def by (intro dbl_nonneg) simp
    then have "0 \<le> dbl (q - startTime m) / tick" using q by simp
    then have "0 \<le> dbl (dbl (q - startTime m) / tick)" by (rule dbl_nonneg)
    then have "0 \<le> skip" unfolding skip_def by simp
    then show "0 \<le> skip \<and> rest = drop (nat skip) (split_semi s)"
      by (simp add: rest_def js_slice_from_def)
  qed
  have d: "(rest = []) = (int (length (split_semi s)) \<le> skip)"
    unfolding rest_def by (rule js_slice_from_empty [OF split_semi_nonempty])
  show "let tick = dbl (intervalMs m / 1000);
            skip = \<lfloor>dbl (dbl (q - startTime m) / tick)\<rfloor>;
            vals = split_semi s;
            rest = js_slice_from vals skip
        in (tick = 0 \<or> points m \<le> skip \<or> rest = [] \<longrightarrow>
              createResumePattern p q = Inr None) \<and>
           (tick \<noteq> 0 \<and> skip < points m \<and> rest \<noteq> [] \<longrightarrow>
              createResumePattern p q =
                Inr (Some (p\<lparr> strength := Some (join_semi rest),
                            timeSec := dbl (real_of_int (round (dbl (dbl (real (length rest)
                                         * tick) * 1000))) / 1000),
                            meta := Some (m\<lparr> startTime := q,
                                             points := int (length rest),
                                             isResumeSlice := True \<rparr>) \<rparr>))) \<and>
           (0 \<le> intervalMs m \<longrightarrow> 0 \<le> skip \<and> rest = drop (nat skip) vals) \<and>
           (rest = []) = (int (length vals) \<le> skip)"
    unfolding Let_def tk sk rs using a b c d by blast
qed

theorem createResumePattern_slice_witness:
  "createResumePattern example_chunk 5 = Inr (Some example_chunk) \<and>
   createResumePattern example_chunk (dbl 5.3) =
     Inr (Some (example_chunk
       \<lparr> strength := Some ''15;20'', timeSec := dbl 0.2,
         meta := Some (example_meta
           \<lparr> startTime := dbl 5.3, points := 2, isResumeSlice := True \<rparr>) \<rparr>)) \<and>
   createResumePattern example_chunk (dbl 5.4) = Inr None"
  using createResumePattern_slice [of example_chunk example_meta "''5;10;15;20''" 5]
    createResumePattern_slice [of example_chunk example_meta "''5;10;15;20''" "dbl 5.3"]
    createResumePattern_slice [of example_chunk example_meta "''5;10;15;20''" "dbl 5.4"]
  by (simp add: example_chunk_def example_meta_def semi_def resume_roundings
      js_slice_from_def)

text \<open>
  The claim as it stands fails on a chunk whose \<^verbatim>\<open>_meta.points\<close> is below its number of
  values: at 2 s the chunk of three values with a tick of 1 s has \<open>skip = 2\<close>, one value
  remains, and the code returns \<^verbatim>\<open>null\<close> because \<open>skip\<close> has reached \<^verbatim>\<open>_meta.points\<close>.
\<close>

theorem createResumePattern_points_counterexample:
  "chunk_values short_count_chunk = [''1'', ''2'', ''3''] \<and>
   chunk_points short_count_chunk = 2 \<and>
   resume_skip short_count_meta 2 = 2 \<and>
   createResumePattern short_count_chunk 2 = Inr None"
  by (simp add: short_count_chunk_def short_count_meta_def chunk_values_def chunk_points_def
      resume_skip_def createResumePattern_def Let_def semi_def resume_roundings)

text \<open>
  The quotient is the one of doubles: for the query time \<^verbatim>\<open>1.7\<close> on a chunk that starts
  at 0 with a tick of 100 ms the code skips 17 values, where the exact quotient of the
  same two doubles is below 17.
\<close>

lemma resume_skip_rounded:
  "resume_skip \<lparr> startTime = 0, endTime = Some 5, points = 50, intervalMs = 100,
                  isResumeSlice = False \<rparr> (dbl 1.7) = 17 \<and>
   \<lfloor>dbl 1.7 / dbl (100 / 1000)\<rfloor> = (16::int)"
  by (simp add: resume_skip_def resume_roundings)

subsection \<open>The encoder\<close>

lemma chunk_values_make_pattern:
  "chunk \<noteq> [] \<Longrightarrow> chunk_values (make_pattern f idx chunk) = map number_string chunk"
  by (simp add: chunk_values_def make_pattern_def Let_def split_join_semi number_string_no_semi)

lemma js_slice_chunk:
  "idx < length xs \<Longrightarrow> js_slice xs idx (idx + min 50 (length xs - idx)) = take 50 (drop idx xs)"
  by (auto simp: js_slice_def min_def)

lemma chunk_loop_step:
  "idx < length xs \<Longrightarrow>
   chunk_loop f xs idx ps =
     chunk_loop f xs (idx + min 50 (length xs - idx))
       (ps @ [make_pattern f idx (take 50 (drop idx xs))])"
  by (subst chunk_loop.simps) (simp add: Let_def js_slice_chunk)

lemma chunk_loop_done: "\<not> idx < length xs \<Longrightarrow> chunk_loop f xs idx ps = ps"
  by (subst chunk_loop.simps) simp

lemma chunk_loop_concat:
  "concat (map chunk_values (chunk_loop f xs idx ps))
     = concat (map chunk_values ps) @ map number_string (drop idx xs)"
proof (induction f xs idx ps rule: chunk_loop.induct)
  case (1 f xs idx ps)
  show ?case
  proof (cases "idx < length xs")
    case True
    let ?c = "take 50 (drop idx xs)"
    let ?n = "min 50 (length xs - idx)"
    have c: "?c \<noteq> []" using True by simp
    have ih: "concat (map chunk_values (chunk_loop f xs (idx + ?n) (ps @ [make_pattern f idx ?c])))
        = concat (map chunk_values (ps @ [make_pattern f idx ?c]))
          @ map number_string (drop (idx + ?n) xs)"
      using "1.IH" [OF True refl refl refl] by (simp add: js_slice_chunk [OF True])
    have "drop (idx + ?n) xs = drop 50 (drop idx xs)"
      using True by (auto simp: min_def add.commute)
    then have "?c @ drop (idx + ?n) xs = drop idx xs"
      by (simp only: append_take_drop_id)
    then have "map number_string ?c @ map number_string (drop (idx + ?n) xs)
                 = map number_string (drop idx xs)"
      by (metis map_append)
    then show ?thesis
      by (simp add: chunk_loop_step [OF True] ih chunk_values_make_pattern [OF c])
  next
    case False
    then show ?thesis by (simp add: chunk_loop_done)
  qed
qed

lemma chunk_loop_length:
  "length (chunk_loop f xs idx ps) = length ps + (length xs - idx + 49) div 50"
proof (induction f xs idx ps rule: chunk_loop.induct)
  case (1 f xs idx ps)
  show ?case
  proof (cases "idx < length xs")
    case True
    let ?c = "take 50 (drop idx xs)"
    let ?n = "min 50 (length xs - idx)"
    have ih: "length (chunk_loop f xs (idx + ?n) (ps @ [make_pattern f idx ?c]))
        = length (ps @ [make_pattern f idx ?c]) + (length xs - (idx + ?n) + 49) div 50"
      using "1.IH" [OF True refl refl refl] by (simp add: js_slice_chunk [OF True])
    have arith: "(length xs - (idx + ?n) + 49) div 50 + 1 = (length xs - idx + 49) div 50"
      using True by (auto simp: min_def)
    have "length (chunk_loop f xs idx ps)
            = length ps + ((length xs - (idx + ?n) + 49) div 50 + 1)"
      unfolding chunk_loop_step [OF True] ih by simp
    then show ?thesis
      unfolding arith .
  next
    case False
    then show ?thesis by (simp add: chunk_loop_done)
  qed
qed

lemma chunk_loop_all:
  "(\<And>i c. c \<noteq> [] \<Longrightarrow> length c \<le> 50 \<Longrightarrow> Q (make_pattern f i c)) \<Longrightarrow>
   list_all Q ps \<Longrightarrow> list_all Q (chunk_loop f xs idx ps)"
proof (induction f xs idx ps rule: chunk_loop.induct)
  case (1 f xs idx ps)
  show ?case
  proof (cases "idx < length xs")
    case True
    let ?c = "take 50 (drop idx xs)"
    let ?n = "min 50 (length xs - idx)"
    have c: "?c \<noteq> []" "length ?c \<le> 50" using True by simp_all
    have "list_all Q (ps @ [make_pattern f idx ?c])"
      using "1.prems"(2) "1.prems"(1) [OF c, of idx] by simp
    then have "list_all Q (chunk_loop f xs (idx + ?n) (ps @ [make_pattern f idx ?c]))"
      using "1.IH" [OF True refl refl refl "1.prems"(1)]
      by (simp add: js_slice_chunk [OF True])
    then show ?thesis
      by (simp add: chunk_loop_step [OF True])
  next
    case False
    then show ?thesis using "1.prems" by (simp add: chunk_loop_done)
  qed
qed

lemma ceiling_div_50: "\<lceil>real n / 50\<rceil> = int ((n + 49) div 50)"
proof -
  have "real n / 50 = real_of_int (int n) / real_of_int 50" by simp
  then have "\<lceil>real n / 50\<rceil> = - (- int n div 50)"
    by (simp only: ceiling_divide_eq_div)
  also have "\<dots> = int ((n + 49) div 50)" by linarith
  finally show ?thesis .
qed

text \<open>
  C6. For every intensity sequence given to the encoder: the chunks' value counts add up
  to the length of the sequence; the values of all chunks, concatenated in order, are
  exactly the decimal strings of the sequence (and a decimal string determines its
  number); every chunk holds at most 50 values, as many as its \<open>points\<close> say; and the
  number of chunks is \<open>\<lceil>totalTicks / 50\<rceil>\<close>.
\<close>

theorem encode_patterns_round_trip:
  "(\<Sum>p\<leftarrow>encode_patterns f xs. length (chunk_values p)) = length xs \<and>
   concat (map chunk_values (encode_patterns f xs)) = map number_string xs \<and>
   inj number_string \<and>
   list_all (\<lambda>p. length (chunk_values p) \<le> 50 \<and> chunk_points p = int (length (chunk_values p)))
     (encode_patterns f xs) \<and>
   int (length (encode_patterns f xs)) = \<lceil>real (length xs) / 50\<rceil>"
proof -
  have cc: "concat (map chunk_values (encode_patterns f xs)) = map number_string xs"
    by (simp add: encode_patterns_def chunk_loop_concat)
  have "(\<Sum>p\<leftarrow>encode_patterns f xs. length (chunk_values p))
          = length (concat (map chunk_values (encode_patterns f xs)))"
    by (simp add: length_concat comp_def)
  then have sum: "(\<Sum>p\<leftarrow>encode_patterns f xs. length (chunk_values p)) = length xs"
    by (simp add: cc)
  have q: "\<And>i c. c \<noteq> [] \<Longrightarrow> length c \<le> 50 \<Longrightarrow>
          length (chunk_values (make_pattern f i c)) \<le> 50 \<and>
          chunk_points (make_pattern f i c) = int (length (chunk_values (make_pattern f i c)))"
    by (simp add: chunk_values_make_pattern) (simp add: chunk_points_def make_pattern_def Let_def)
  have bound: "list_all (\<lambda>p. length (chunk_values p) \<le> 50 \<and>
                       chunk_points p = int (length (chunk_values p))) (encode_patterns f xs)"
    unfolding encode_patterns_def
  proof (rule chunk_loop_all [where Q = "\<lambda>p. length (chunk_values p) \<le> 50 \<and>
                       chunk_points p = int (length (chunk_values p))"])
    show "list_all (\<lambda>p. length (chunk_values p) \<le> 50 \<and>
                       chunk_points p = int (length (chunk_values p))) []"
      by simp
  qed (rule q)
  have len: "int (length (encode_patterns f xs)) = \<lceil>real (length xs) / 50\<rceil>"
    by (simp add: encode_patterns_def chunk_loop_length ceiling_div_50)
  show ?thesis using sum cc number_string_inj bound len by blast
qed

text \<open>A 10-second track: 100 values give exactly two chunks that hold them all.\<close>

theorem encode_patterns_round_trip_witness:
  "(\<Sum>p\<leftarrow>encode_patterns ''v'' (replicate 100 7). length (chunk_values p)) = 100 \<and>
   concat (map chunk_values (encode_patterns ''v'' (replicate 100 7))) = replicate 100 ''7'' \<and>
   length (encode_patterns ''v'' (replicate 100 7)) = 2"
proof -
  have seven: "number_string 7 = ''7''"
    by (simp add: number_string_def nat_string.simps digit_char_def)
  have "\<lceil>real (length (replicate 100 (7::int))) / 50\<rceil> = 2"
    by simp
  then show ?thesis
    using encode_patterns_round_trip [of "''v''" "replicate 100 7"]
    by (simp add: seven)
qed

text \<open>
  Every chunk of the encoder has metadata, a positive tick and as many \<open>points\<close> as values
  in its \<open>strength\<close>: the chunks that the resume slice is computed for.
\<close>

lemma encode_patterns_sliceable:
  "list_all (\<lambda>p. \<exists>m s. meta p = Some m \<and> strength p = Some s \<and> 0 < intervalMs m \<and>
                     points m = int (length (split_semi s)))
     (encode_patterns f xs)"
  unfolding encode_patterns_def
proof (rule chunk_loop_all [where Q = "\<lambda>p. \<exists>m s. meta p = Some m \<and> strength p = Some s \<and>
                     0 < intervalMs m \<and> points m = int (length (split_semi s))"])
  fix i :: nat and c :: "int list"
  assume c: "c \<noteq> []"
  have "split_semi (join_semi (map number_string c)) = map number_string c"
    using c by (intro split_join_semi) (auto simp: number_string_no_semi)
  then show "\<exists>m s. meta (make_pattern f i c) = Some m \<and> strength (make_pattern f i c) = Some s \<and>
               0 < intervalMs m \<and> points m = int (length (split_semi s))"
    by (simp add: make_pattern_def Let_def)
qed simp

text \<open>\<^verbatim>\<open>generate\<close> returns the encoder's chunks for its intensity sequence.\<close>

lemma generate_patterns:
  assumes "generate ar st = Some g"
  shows "\<exists>beats f. generated.patterns g = encode_patterns f (allStrengths_of ar st beats) \<and>
                   patternCount g = length (generated.patterns g) \<and>
                   totalPoints g = length (allStrengths_of ar st beats)"
proof -
  obtain beats where b:
    "build_beats (analysis_result.duration ar) (analysis_result.beatInterval ar) 0 [] = Some beats"
    using assms by (auto simp: generate_def Let_def split: option.splits)
  define f where
    "f = (case deviceFeatures (deviceType st) of None \<Rightarrow> ''v'' | Some x \<Rightarrow> x)"
  have "generated.patterns g = encode_patterns f (allStrengths_of ar st beats) \<and>
        patternCount g = length (generated.patterns g) \<and>
        totalPoints g = length (allStrengths_of ar st beats)"
    using assms by (auto simp: generate_def Let_def b f_def)
  then show ?thesis by blast
qed

subsection \<open>The scheduler on a two-chunk track\<close>

lemma track_chunks: "encode_patterns ''v'' (replicate 100 7) = [first_chunk, second_chunk]"
proof -
  have a: "take 50 (replicate 100 (7::int)) = replicate 50 7" by simp
  have b: "take 50 (drop 50 (replicate 100 (7::int))) = replicate 50 7" by simp
  have "chunk_loop ''v'' (replicate 100 7) 0 []
          = chunk_loop ''v'' (replicate 100 7) 50 [first_chunk]"
    by (subst chunk_loop_step) (simp_all add: a first_chunk_def)
  also have "\<dots> = chunk_loop ''v'' (replicate 100 7) 100 [first_chunk, second_chunk]"
    by (subst chunk_loop_step) (simp_all add: b second_chunk_def)
  also have "\<dots> = [first_chunk, second_chunk]"
    by (subst chunk_loop_done) simp_all
  finally show ?thesis
    by (simp add: encode_patterns_def)
qed

lemma entry_times:
  "pattern_start first_entry = 0" "pattern_end first_entry = 5"
  "pattern_start second_entry = 5" "pattern_end second_entry = 10"
  by (simp_all add: pattern_start_def pattern_end_def pattern_duration_def first_entry_def
      second_entry_def first_chunk_def second_chunk_def make_pattern_def intervalSec_def Let_def)

lemma covers_entries:
  "covers t first_entry = (0 \<le> t \<and> t < 5)" "covers t second_entry = (5 \<le> t \<and> t < 10)"
  by (simp_all add: covers_def entry_times)

lemma sendPattern_first:
  "sendPattern (streaming t l a ss) first_entry
     = streaming t l (Some first_entry) (ss @ [whole_chunk_send first_chunk])"
  by (simp add: sendPattern_def streaming_def first_entry_def truthy_def or_default_def
      whole_chunk_send_def Let_def)

lemma sendPattern_second:
  "sendPattern (streaming t l a ss) second_entry
     = streaming t l (Some second_entry) (ss @ [whole_chunk_send second_chunk])"
  by (simp add: sendPattern_def streaming_def second_entry_def truthy_def or_default_def
      whole_chunk_send_def Let_def)

lemma streaming_update:
  "(streaming t l a ss)\<lparr> currentTime := t' \<rparr> = streaming t' l a ss"
  "(streaming t l a ss)\<lparr> lastPatternTime := l' \<rparr> = streaming t l' a ss"
  by (simp_all add: streaming_def)

lemma sent_streaming: "sent (streaming t l a ss) = ss"
  by (simp add: streaming_def)

lemma find_first:
  "0 \<le> t \<Longrightarrow> t < 5 \<Longrightarrow> findIndex (covers t) [first_entry, second_entry] = Some 0"
  by (simp add: findIndex_def covers_entries)

lemma find_second:
  "5 \<le> t \<Longrightarrow> t < 10 \<Longrightarrow> findIndex (covers t) [first_entry, second_entry] = Some 1"
  by (simp add: findIndex_def covers_entries)

text \<open>In the last 200 ms of the first chunk, with another last pattern time than 5.\<close>

lemma timeupdate_presend:
  assumes "4.8 \<le> t" "t < 5" "l \<noteq> Some 5"
  shows "timeupdate (streaming t0 l a ss) t
           = streaming t (Some 5) (Some second_entry) (ss @ [whole_chunk_send second_chunk])"
proof -
  have "checkPatternSync (streaming t l a ss)
          = sendPattern (streaming t (Some 5) a ss) second_entry"
    using assms
    by (simp add: checkPatternSync_def streaming_def track_script_def find_first entry_times
        PRE_SEND_MS_def Let_def)
  then show ?thesis
    by (simp add: timeupdate_def streaming_update sendPattern_second)
qed

text \<open>Inside the first chunk, when the pre-send does not fire.\<close>

lemma timeupdate_current_first:
  assumes "0 \<le> t" "t < 5" "t < 4.8 \<or> l = Some 5" "l = Some x" "\<bar>x\<bar> \<ge> 0.05"
  shows "timeupdate (streaming t0 l a ss) t
           = streaming t (Some 0) (Some first_entry) (ss @ [whole_chunk_send first_chunk])"
proof -
  have "checkPatternSync (streaming t l a ss)
          = sendPattern (streaming t (Some 0) a ss) first_entry"
    using assms
    by (auto simp add: checkPatternSync_def streaming_def track_script_def find_first entry_times
        PRE_SEND_MS_def differs_from_last_def Let_def)
  then show ?thesis
    by (simp add: timeupdate_def streaming_update sendPattern_first)
qed

text \<open>Inside the second chunk, which is the last one.\<close>

lemma timeupdate_current_second:
  assumes "5 \<le> t" "t < 10" "l = Some x" "\<bar>x - 5\<bar> \<ge> 0.05"
  shows "timeupdate (streaming t0 l a ss) t
           = streaming t (Some 5) (Some second_entry) (ss @ [whole_chunk_send second_chunk])"
proof -
  have "checkPatternSync (streaming t l a ss)
          = sendPattern (streaming t (Some 5) a ss) second_entry"
    using assms
    by (auto simp add: checkPatternSync_def streaming_def track_script_def find_second entry_times
        PRE_SEND_MS_def differs_from_last_def Let_def)
  then show ?thesis
    by (simp add: timeupdate_def streaming_update sendPattern_second)
qed

lemma second_chunk_fields:
  "meta second_chunk = Some \<lparr> startTime = 5, endTime = Some 10, points = 50, intervalMs = 100,
                              isResumeSlice = False \<rparr>"
  "strength second_chunk = Some (join_semi (replicate 50 (number_string 7)))"
  "timeSec second_chunk = 5"
  by (simp_all add: second_chunk_def make_pattern_def intervalSec_def Let_def)

lemma second_chunk_values:
  "split_semi (join_semi (replicate 50 (number_string 7))) = replicate 50 (number_string 7)"
  by (rule split_join_semi) (simp_all add: number_string_no_semi)

text \<open>
  C1 (the code differs). The first chunk has been sent and playback is at 1.2 s, then a seek
  moves the video to 7.25 s. The chunk that covers 7.25 s starts at 5 s, more than 50 ms
  from the last pattern time 0, and the scheduler sends that whole chunk: 50 values and
  5 s from the chunk's own start. The resume slice for 7.25 s, which the claim requires
  and which \<^verbatim>\<open>sendPatternAtCurrentTime\<close> computes when playback starts, has 28 values and
  lasts 2.8 s (the double nearest to 2.8).
\<close>

theorem seek_sends_whole_chunk:
  "sent (timeupdate (streaming 1.2 (Some 0) (Some first_entry) []) 7.25)
     = [whole_chunk_send second_chunk] \<and>
   chunk_points second_chunk = 50 \<and> timeSec second_chunk = 5 \<and>
   (\<exists>r. createResumePattern second_chunk 7.25 = Inr (Some r) \<and>
        chunk_points r = 28 \<and> timeSec r = dbl 2.8 \<and> r \<noteq> second_chunk)"
proof -
  have "timeupdate (streaming 1.2 (Some 0) (Some first_entry) []) 7.25
        = streaming 7.25 (Some 5) (Some second_entry) [whole_chunk_send second_chunk]"
    by (subst timeupdate_current_second [where x = 0]) simp_all
  then have a: "sent (timeupdate (streaming 1.2 (Some 0) (Some first_entry) []) 7.25)
                  = [whole_chunk_send second_chunk]"
    by (simp only: sent_streaming)
  have b: "chunk_points second_chunk = 50" "timeSec second_chunk = 5"
    by (simp_all add: chunk_points_def second_chunk_fields)
  have "\<exists>r. createResumePattern second_chunk 7.25 = Inr (Some r) \<and>
        chunk_points r = 28 \<and> timeSec r = dbl 2.8"
    by (subst createResumePattern_suffix
          [OF second_chunk_fields(1) _ _ _ _ second_chunk_fields(2),
            where tick = "dbl (1 / 10)" and skip = 22
              and rest = "replicate 28 (number_string 7)"])
      (simp_all add: second_chunk_values chunk_points_def resume_roundings js_slice_from_def
        round_def)
  then obtain r where r: "createResumePattern second_chunk 7.25 = Inr (Some r)"
    "chunk_points r = 28" "timeSec r = dbl 2.8" by blast
  from r(2) b(1) have "r \<noteq> second_chunk" by auto
  with a b r show ?thesis by blast
qed

text \<open>
  C2 (the code differs). Three time updates at 4.85 s, 4.86 s and 4.87 s, all in the last
  200 ms of the first chunk: the first sends the next chunk, the second finds the next
  chunk's start remembered, falls through to the normal send and sends the current chunk
  again, which forgets the pre-send, and the third sends the next chunk once more.
\<close>

theorem presend_repeats_in_window:
  "sent (timeupdates (streaming 4.7 (Some 0) (Some first_entry) []) [4.85, 4.86, 4.87])
     = [whole_chunk_send second_chunk, whole_chunk_send first_chunk,
        whole_chunk_send second_chunk]"
proof -
  have 1: "timeupdate (streaming 4.7 (Some 0) (Some first_entry) []) 4.85
        = streaming 4.85 (Some 5) (Some second_entry) [whole_chunk_send second_chunk]"
    by (subst timeupdate_presend) simp_all
  have 2: "timeupdate (streaming 4.85 (Some 5) (Some second_entry)
             [whole_chunk_send second_chunk]) 4.86
        = streaming 4.86 (Some 0) (Some first_entry)
            [whole_chunk_send second_chunk, whole_chunk_send first_chunk]"
    by (subst timeupdate_current_first [where x = 5]) simp_all
  have 3: "timeupdate (streaming 4.86 (Some 0) (Some first_entry)
            [whole_chunk_send second_chunk, whole_chunk_send first_chunk]) 4.87
        = streaming 4.87 (Some 5) (Some second_entry)
            [whole_chunk_send second_chunk, whole_chunk_send first_chunk,
             whole_chunk_send second_chunk]"
    by (subst timeupdate_presend) simp_all
  have run: "timeupdates (streaming 4.7 (Some 0) (Some first_entry) []) [4.85, 4.86, 4.87]
      = timeupdate (timeupdate (timeupdate (streaming 4.7 (Some 0) (Some first_entry) []) 4.85)
          4.86) 4.87"
    by (simp only: timeupdates_def foldl.simps)
  show ?thesis
    unfolding run 1 2 3 sent_streaming by (rule refl)
qed

text \<open>
  C3 (the code differs). The time-update handler runs twice with the same current time
  4.85 s: the first run sends the next chunk, the second run sends the current chunk, two
  sends in total.
\<close>

theorem same_time_twice_sends_twice:
  "sent (timeupdates (streaming 4.7 (Some 0) (Some first_entry) []) [4.85, 4.85])
     = [whole_chunk_send second_chunk, whole_chunk_send first_chunk]"
proof -
  have 1: "timeupdate (streaming 4.7 (Some 0) (Some first_entry) []) 4.85
        = streaming 4.85 (Some 5) (Some second_entry) [whole_chunk_send second_chunk]"
    by (subst timeupdate_presend) simp_all
  have 2: "timeupdate (streaming 4.85 (Some 5) (Some second_entry)
             [whole_chunk_send second_chunk]) 4.85
        = streaming 4.85 (Some 0) (Some first_entry)
            [whole_chunk_send second_chunk, whole_chunk_send first_chunk]"
    by (subst timeupdate_current_first [where x = 5]) simp_all
  have run: "timeupdates (streaming 4.7 (Some 0) (Some first_entry) []) [4.85, 4.85]
      = timeupdate (timeupdate (streaming 4.7 (Some 0) (Some first_entry) []) 4.85) 4.85"
    by (simp only: timeupdates_def foldl.simps)
  show ?thesis
    unfolding run 1 2 sent_streaming by (rule refl)
qed

subsection \<open>The tempo estimate\<close>

lemma double_bpm_range: "0 < b \<Longrightarrow> 80 \<le> double_bpm b"
proof (induction b rule: double_bpm.induct)
  case (1 b)
  show ?case
  proof (cases "b < 80 \<and> b > 0")
    case True
    then have "80 \<le> double_bpm (b * 2)" using 1 by simp
    then show ?thesis using True by (subst double_bpm.simps) simp
  next
    case False
    then show ?thesis using "1.prems" by (subst double_bpm.simps) simp
  qed
qed

lemma halve_bpm_range: "80 \<le> b \<Longrightarrow> 80 \<le> halve_bpm b \<and> halve_bpm b \<le> 180"
proof (induction b rule: halve_bpm.induct)
  case (1 b)
  show ?case
  proof (cases "b > 180")
    case True
    then have "80 \<le> halve_bpm (b / 2) \<and> halve_bpm (b / 2) \<le> 180" using 1 by simp
    moreover have "halve_bpm b = halve_bpm (b / 2)"
      using True by (subst halve_bpm.simps) simp
    ultimately show ?thesis by simp
  next
    case False
    then have "halve_bpm b = b" by (subst halve_bpm.simps) simp
    then show ?thesis using "1.prems" False by simp
  qed
qed

lemma histogram_bump_keys: "fst ` set (histogram_bump h k) = insert k (fst ` set h)"
  by (auto simp: histogram_bump_def image_iff split: if_splits prod.splits) force+

lemma histogram_add_keys:
  assumes "\<forall>k \<in> fst ` set h. 0 < k"
  shows "\<forall>k \<in> fst ` set (histogram_add h x). 0 < k"
proof (cases "x \<ge> 0.25 \<and> x \<le> 1.0")
  case True
  then have "12 < x / binSize" by (simp add: binSize_def)
  then have "12 \<le> round (x / binSize)"
    unfolding round_def by linarith
  then have "0 < real_of_int (round (x / binSize)) * binSize"
    by (simp add: binSize_def)
  then show ?thesis
    using assms True by (simp add: histogram_add_def histogram_bump_keys)
next
  case False
  then show ?thesis using assms by (auto simp: histogram_add_def)
qed

lemma histogram_keys:
  "\<forall>k \<in> fst ` set h. 0 < k \<Longrightarrow> \<forall>k \<in> fst ` set (foldl histogram_add h xs). 0 < k"
proof (induction xs arbitrary: h)
  case Nil
  then show ?case by simp
next
  case (Cons x xs)
  have "\<forall>k \<in> fst ` set (histogram_add h x). 0 < k"
    using Cons.prems by (rule histogram_add_keys)
  then have "\<forall>k \<in> fst ` set (foldl histogram_add (histogram_add h x) xs). 0 < k"
    by (rule Cons.IH)
  then show ?case by simp
qed

lemma object_entries_keys: "fst ` set (object_entries h) = fst ` set h"
  by (auto simp: object_entries_def)

lemma pick_best_pos:
  "0 < snd acc \<Longrightarrow> \<forall>k \<in> fst ` set es. 0 < k \<Longrightarrow> 0 < snd (foldl pick_best acc es)"
proof (induction es arbitrary: acc)
  case Nil
  then show ?case by simp
next
  case (Cons e es)
  have "0 < snd (pick_best acc e)"
    using Cons.prems by (auto simp: pick_best_def split: prod.splits)
  then show ?case using Cons by simp
qed

lemma folded_bpm_range: "80 \<le> folded_bpm onsets \<and> folded_bpm onsets \<le> 180"
proof -
  define h where "h = foldl histogram_add [] (onset_intervals onsets)"
  have "\<forall>k \<in> fst ` set h. 0 < k"
    unfolding h_def by (rule histogram_keys) simp
  then have "0 < snd (foldl pick_best (0, 0.5) (object_entries h))"
    by (intro pick_best_pos) (simp_all add: object_entries_keys)
  then have "0 < 60 / snd (foldl pick_best (0, 0.5) (object_entries h))"
    by simp
  then have "80 \<le> double_bpm (60 / snd (foldl pick_best (0, 0.5) (object_entries h)))"
    by (rule double_bpm_range)
  then show ?thesis
    unfolding folded_bpm_def Let_def h_def [symmetric] by (rule halve_bpm_range)
qed

text \<open>
  C4 (amended). For every onset sequence and duration the returned \<open>bpm\<close> is an integer in
  \<open>[80, 180]\<close>; \<open>beatInterval\<close> is positive and is 60 divided by the tempo before it is
  rounded, so \<open>60 / beatInterval\<close> lies in \<open>[80, 180]\<close> and \<open>bpm\<close> is that quotient rounded
  to the nearest integer; and fewer than 4 onsets give \<open>bpm = 120\<close> with \<open>beatInterval = 0.5\<close>.
\<close>

theorem estimateBPM_range:
  "80 \<le> tempo.bpm (estimateBPM onsets d) \<and> tempo.bpm (estimateBPM onsets d) \<le> 180 \<and>
   0 < tempo.beatInterval (estimateBPM onsets d) \<and>
   80 \<le> 60 / tempo.beatInterval (estimateBPM onsets d) \<and>
   60 / tempo.beatInterval (estimateBPM onsets d) \<le> 180 \<and>
   tempo.bpm (estimateBPM onsets d) = round (60 / tempo.beatInterval (estimateBPM onsets d)) \<and>
   (length onsets < 4 \<longrightarrow> estimateBPM onsets d = \<lparr> bpm = 120, beatInterval = 0.5 \<rparr>)"
proof (cases "length onsets < 4")
  case True
  then show ?thesis by (simp add: estimateBPM_def)
next
  case False
  define b where "b = folded_bpm onsets"
  have b: "80 \<le> b" "b \<le> 180" using folded_bpm_range [of onsets] by (simp_all add: b_def)
  have e: "estimateBPM onsets d = \<lparr> bpm = round b, beatInterval = 60 / b \<rparr>"
    using False by (simp add: estimateBPM_def Let_def b_def)
  have "round (80::real) \<le> round b" using b(1) by (rule round_mono)
  moreover have "round b \<le> round (180::real)" using b(2) by (rule round_mono)
  ultimately have r: "80 \<le> round b" "round b \<le> 180" by simp_all
  have "60 / (60 / b) = b" using b by simp
  then show ?thesis using b r False by (simp add: e)
qed

lemma estimateBPM_steady: "estimateBPM steady_onsets 2 = \<lparr> bpm = 115, beatInterval = 0.52 \<rparr>"
proof -
  have l: "\<not> length steady_onsets < 4" by (simp add: steady_onsets_def)
  have i: "onset_intervals steady_onsets = [0.52, 0.52, 0.52]"
  proof -
    have "[1 ..< length steady_onsets] = [1, 2, 3]"
      by (simp add: steady_onsets_def upt_conv_Cons)
    then show ?thesis
      by (simp add: onset_intervals_def) (simp add: steady_onsets_def)
  qed
  have h: "foldl histogram_add [] [0.52, 0.52, 0.52] = [(0.52, 3)]"
    by (simp add: histogram_add_def binSize_def histogram_bump_def)
  have k: "\<not> is_index_key 0.52"
    by (simp add: is_index_key_def)
  have o: "object_entries [(0.52, 3)] = [(0.52, 3)]"
    by (simp add: object_entries_def k)
  have f: "folded_bpm steady_onsets = 60 / 0.52"
    unfolding folded_bpm_def Let_def i h o
    by (simp add: pick_best_def double_bpm.simps halve_bpm.simps)
  have r: "round (60 / 0.52 :: real) = 115"
    by (simp add: round_def)
  show ?thesis
    unfolding estimateBPM_def Let_def f r using l by simp
qed


theorem estimateBPM_range_witness:
  "estimateBPM two_onsets 3 = \<lparr> bpm = 120, beatInterval = 0.5 \<rparr> \<and>
   tempo.bpm (estimateBPM steady_onsets 2) = 115 \<and>
   tempo.beatInterval (estimateBPM steady_onsets 2) = 0.52 \<and>
   round (60 / tempo.beatInterval (estimateBPM steady_onsets 2)) = 115"
proof -
  have "length two_onsets < 4" by (simp add: two_onsets_def)
  then show ?thesis
    using estimateBPM_range [of two_onsets 3] estimateBPM_range [of steady_onsets 2]
    by (simp add: estimateBPM_steady)
qed

text \<open>
  C4 as stated fails: with onsets every 0.52 s the result is \<open>bpm = 115\<close> and
  \<open>beatInterval = 0.52\<close>, and \<open>60 / 115\<close> is not \<open>0.52\<close>.
\<close>

theorem estimateBPM_interval_counterexample:
  "tempo.beatInterval (estimateBPM steady_onsets 2)
     \<noteq> 60 / real_of_int (tempo.bpm (estimateBPM steady_onsets 2))"
  by (simp add: estimateBPM_steady)

text \<open>The onsets 1.0, 1.5, 2.0, 2.5 give 120 beats per minute and a beat of 0.5 s.\<close>

lemma estimateBPM_half_second: "estimateBPM [1.0, 1.5, 2.0, 2.5] 3 = \<lparr> bpm = 120, beatInterval = 0.5 \<rparr>"
proof -
  have i: "onset_intervals [1.0, 1.5, 2.0, 2.5] = [0.5, 0.5, 0.5]"
  proof -
    have "[1 ..< length [1.0, 1.5, 2.0, 2.5::real]] = [1, 2, 3]"
      by (simp add: upt_conv_Cons)
    then show ?thesis
      by (simp add: onset_intervals_def)
  qed
  have h: "foldl histogram_add [] [0.5, 0.5, 0.5] = [(0.5, 3)]"
    by (simp add: histogram_add_def binSize_def histogram_bump_def)
  have k: "\<not> is_index_key 0.5"
    by (simp add: is_index_key_def)
  have o: "object_entries [(0.5, 3)] = [(0.5, 3)]"
    by (simp add: object_entries_def k)
  have f: "folded_bpm [1.0, 1.5, 2.0, 2.5] = 120"
    unfolding folded_bpm_def Let_def i h o
    by (simp add: pick_best_def double_bpm.simps halve_bpm.simps)
  show ?thesis
    unfolding estimateBPM_def Let_def f by simp
qed

subsection \<open>Generation for a silent track\<close>




















subsection \<open>Onset detection\<close>

lemma spaced_snoc:
  "spaced xs \<Longrightarrow> xs = [] \<or> t - last xs > 0.05 \<Longrightarrow> spaced (xs @ [t])"
  by (induction xs rule: spaced.induct) auto

lemma spaced_increasing: "spaced xs \<Longrightarrow> sorted_wrt (<) xs"
proof (induction xs rule: spaced.induct)
  case (3 x y ys)
  then have s: "sorted_wrt (<) (y # ys)" and xy: "x < y" by simp_all
  then have "\<forall>z \<in> set ys. y < z" by simp
  with xy have "\<forall>z \<in> set (y # ys). x < z" by auto
  with s show ?case by simp
qed simp_all

lemma onset_loop_spaced:
  "onset_loop cd sr fs hs i pe eh ons = Some r \<Longrightarrow> spaced ons \<Longrightarrow> spaced r"
proof (induction cd sr fs hs i pe eh ons r rule: onset_loop.raw_induct [rotated 1, consumes 1])
  case (1 loop cd sr fs hs i pe eh ons r)
  show ?case
  proof (cases "int i < int (length cd) - int fs")
    case True
    define energy where "energy = frame_energy cd fs i"
    define history where
      "history = (if length (eh @ [energy]) > historySize then tl (eh @ [energy]) else eh @ [energy])"
    define ons' where
      "ons' = (if energy > sum_list history / real (length history) * 1.5 \<and> energy > pe * 1.3
               then (if length ons = 0 \<or> real i / sr - last ons > 0.05
                     then ons @ [real i / sr] else ons)
               else ons)"
    have call: "loop cd sr fs hs (i + hs) energy history ons' = Some r"
      using "1.hyps" True unfolding energy_def history_def ons'_def Let_def
      by (simp only: if_True)
    have "spaced ons'"
      using "1.prems" by (auto simp: ons'_def intro: spaced_snoc)
    with call show ?thesis by (rule "1.IH")
  next
    case False
    then have "r = ons" using "1.hyps" by simp
    then show ?thesis using "1.prems" by simp
  qed
qed

lemma onset_loop_terminates:
  assumes "0 < hs"
  shows "\<exists>r. onset_loop cd sr fs hs i pe eh ons = Some r"
proof (induction "nat (int (length cd) - int fs - int i)" arbitrary: i pe eh ons rule: less_induct)
  case less
  show ?case
  proof (cases "int i < int (length cd) - int fs")
    case True
    have "nat (int (length cd) - int fs - int (i + hs)) < nat (int (length cd) - int fs - int i)"
      using True assms by simp
    then have "\<And>pe eh ons. \<exists>r. onset_loop cd sr fs hs (i + hs) pe eh ons = Some r"
      by (rule less)
    then show ?thesis
      using True by (subst onset_loop.simps) (simp add: Let_def)
  next
    case False
    then show ?thesis by (subst onset_loop.simps) simp
  qed
qed

text \<open>
  C8. For every sample buffer, whenever \<^verbatim>\<open>detectOnsets\<close> returns, the onsets are strictly
  increasing and every gap between consecutive onsets exceeds 0.05 s; and it does return
  for every sample rate of at least 200 Hz (below that the hop size is 0).
\<close>

theorem detectOnsets_spacing:
  "(\<forall>onsets. detectOnsets cd sr = Some onsets \<longrightarrow> spaced onsets \<and> sorted_wrt (<) onsets) \<and>
   (200 \<le> sr \<longrightarrow> (\<exists>onsets. detectOnsets cd sr = Some onsets))"
proof (intro conjI allI impI)
  fix onsets
  assume "detectOnsets cd sr = Some onsets"
  then have "spaced onsets"
    unfolding detectOnsets_def Let_def by (rule onset_loop_spaced) simp
  then show "spaced onsets" "sorted_wrt (<) onsets"
    by (simp_all add: spaced_increasing)
next
  assume "200 \<le> sr"
  then have "2 \<le> sr * 0.01" by simp
  then have "2 \<le> \<lfloor>sr * 0.01\<rfloor>" by linarith
  then have "2 \<le> nat \<lfloor>sr * 0.01\<rfloor>" by linarith
  then have "0 < nat \<lfloor>sr * 0.01\<rfloor> div 2" by simp
  then show "\<exists>onsets. detectOnsets cd sr = Some onsets"
    unfolding detectOnsets_def Let_def by (rule onset_loop_terminates)
qed

lemma example_roots:
  "sqrt (1 / 100) = 1 / 10" "sqrt (1 / 4) = 1 / 2" "sqrt (49 / 100) = 7 / 10"
  by (rule real_sqrt_unique; simp add: power2_eq_square)+

lemma onset_step:
  assumes "int i < int (length cd) - int fs"
    and "frame_energy cd fs i = e"
    and "(if length (eh @ [e]) > historySize then tl (eh @ [e]) else eh @ [e]) = h"
    and "(if e > sum_list h / real (length h) * 1.5 \<and> e > pe * 1.3
          then (if length ons = 0 \<or> real i / sr - last ons > 0.05
                then ons @ [real i / sr] else ons)
          else ons) = ons'"
    and "i + hs = i'"
  shows "onset_loop cd sr fs hs i pe eh ons = onset_loop cd sr fs hs i' e h ons'"
proof -
  have "onset_loop cd sr fs hs i pe eh ons
          = onset_loop cd sr fs hs (i + hs) (frame_energy cd fs i)
              (if length (eh @ [frame_energy cd fs i]) > historySize
               then tl (eh @ [frame_energy cd fs i]) else eh @ [frame_energy cd fs i])
              (if frame_energy cd fs i
                    > sum_list (if length (eh @ [frame_energy cd fs i]) > historySize
                                then tl (eh @ [frame_energy cd fs i])
                                else eh @ [frame_energy cd fs i])
                      / real (length (if length (eh @ [frame_energy cd fs i]) > historySize
                                      then tl (eh @ [frame_energy cd fs i])
                                      else eh @ [frame_energy cd fs i])) * 1.5
                  \<and> frame_energy cd fs i > pe * 1.3
               then (if length ons = 0 \<or> real i / sr - last ons > 0.05
                     then ons @ [real i / sr] else ons)
               else ons)"
    using assms(1) by (subst onset_loop.simps) (simp only: if_True Let_def)
  then show ?thesis
    unfolding assms(2) assms(3) assms(4) assms(5) .
qed

lemma example_energy:
  "frame_energy example_samples 2 0 = 0.1"
  "frame_energy example_samples 2 1 = 0.5"
  "frame_energy example_samples 2 2 = 0.7"
  "frame_energy example_samples 2 3 = 0.5"
  "frame_energy example_samples 2 4 = 0.1"
  "frame_energy example_samples 2 5 = 0.1"
  "frame_energy example_samples 2 6 = 0.1"
  "frame_energy example_samples 2 7 = 0.1"
  "frame_energy example_samples 2 8 = 0.1"
  "frame_energy example_samples 2 9 = 0.1"
  "frame_energy example_samples 2 10 = 0.1"
  "frame_energy example_samples 2 11 = 0.1"
  "frame_energy example_samples 2 12 = 0.5"
  "frame_energy example_samples 2 13 = 0.7"
  by (simp_all add: frame_energy_def example_samples_def upt_conv_Cons power2_eq_square example_roots)

lemma example_onsets: "detectOnsets example_samples 200 = Some [0.005, 0.06]"
proof -
  have len: "length example_samples = 16" by (simp add: example_samples_def)
  have s0: "onset_loop example_samples 200 2 1 0 0 [] []
            = onset_loop example_samples 200 2 1 1 0.1 [0.1] []"
    by (rule onset_step [OF _ example_energy(1)]) (simp_all add: len historySize_def)
  have s1: "onset_loop example_samples 200 2 1 1 0.1 [0.1] []
            = onset_loop example_samples 200 2 1 2 0.5 [0.1, 0.5] [0.005]"
    by (rule onset_step [OF _ example_energy(2)]) (simp_all add: len historySize_def)
  have s2: "onset_loop example_samples 200 2 1 2 0.5 [0.1, 0.5] [0.005]
            = onset_loop example_samples 200 2 1 3 0.7 [0.1, 0.5, 0.7] [0.005]"
    by (rule onset_step [OF _ example_energy(3)]) (simp_all add: len historySize_def)
  have s3: "onset_loop example_samples 200 2 1 3 0.7 [0.1, 0.5, 0.7] [0.005]
            = onset_loop example_samples 200 2 1 4 0.5 [0.1, 0.5, 0.7, 0.5] [0.005]"
    by (rule onset_step [OF _ example_energy(4)]) (simp_all add: len historySize_def)
  have s4: "onset_loop example_samples 200 2 1 4 0.5 [0.1, 0.5, 0.7, 0.5] [0.005]
            = onset_loop example_samples 200 2 1 5 0.1 [0.1, 0.5, 0.7, 0.5, 0.1] [0.005]"
    by (rule onset_step [OF _ example_energy(5)]) (simp_all add: len historySize_def)
  have s5: "onset_loop example_samples 200 2 1 5 0.1 [0.1, 0.5, 0.7, 0.5, 0.1] [0.005]
            = onset_loop example_samples 200 2 1 6 0.1 [0.1, 0.5, 0.7, 0.5, 0.1, 0.1] [0.005]"
    by (rule onset_step [OF _ example_energy(6)]) (simp_all add: len historySize_def)
  have s6: "onset_loop example_samples 200 2 1 6 0.1 [0.1, 0.5, 0.7, 0.5, 0.1, 0.1] [0.005]
            = onset_loop example_samples 200 2 1 7 0.1 [0.1, 0.5, 0.7, 0.5, 0.1, 0.1, 0.1] [0.005]"
    by (rule onset_step [OF _ example_energy(7)]) (simp_all add: len historySize_def)
  have s7: "onset_loop example_samples 200 2 1 7 0.1 [0.1, 0.5, 0.7, 0.5, 0.1, 0.1, 0.1] [0.005]
            = onset_loop example_samples 200 2 1 8 0.1 [0.1, 0.5, 0.7, 0.5, 0.1, 0.1, 0.1, 0.1] [0.005]"
    by (rule onset_step [OF _ example_energy(8)]) (simp_all add: len historySize_def)
  have s8: "onset_loop example_samples 200 2 1 8 0.1 [0.1, 0.5, 0.7, 0.5, 0.1, 0.1, 0.1, 0.1] [0.005]
            = onset_loop example_samples 200 2 1 9 0.1 [0.1, 0.5, 0.7, 0.5, 0.1, 0.1, 0.1, 0.1, 0.1] [0.005]"
    by (rule onset_step [OF _ example_energy(9)]) (simp_all add: len historySize_def)
  have s9: "onset_loop example_samples 200 2 1 9 0.1 [0.1, 0.5, 0.7, 0.5, 0.1, 0.1, 0.1, 0.1, 0.1] [0.005]
            = onset_loop example_samples 200 2 1 10 0.1 [0.1, 0.5, 0.7, 0.5, 0.1, 0.1, 0.1, 0.1, 0.1, 0.1] [0.005]"
    by (rule onset_step [OF _ example_energy(10)]) (simp_all add: len historySize_def)
  have s10: "onset_loop example_samples 200 2 1 10 0.1 [0.1, 0.5, 0.7, 0.5, 0.1, 0.1, 0.1, 0.1, 0.1, 0.1] [0.005]
            = onset_loop example_samples 200 2 1 11 0.1 [0.5, 0.7, 0.5, 0.1, 0.1, 0.1, 0.1, 0.1, 0.1, 0.1] [0.005]"
    by (rule onset_step [OF _ example_energy(11)]) (simp_all add: len historySize_def)
  have s11: "onset_loop example_samples 200 2 1 11 0.1 [0.5, 0.7, 0.5, 0.1, 0.1, 0.1, 0.1, 0.1, 0.1, 0.1] [0.005]
            = onset_loop example_samples 200 2 1 12 0.1 [0.7, 0.5, 0.1, 0.1, 0.1, 0.1, 0.1, 0.1, 0.1, 0.1] [0.005]"
    by (rule onset_step [OF _ example_energy(12)]) (simp_all add: len historySize_def)
  have s12: "onset_loop example_samples 200 2 1 12 0.1 [0.7, 0.5, 0.1, 0.1, 0.1, 0.1, 0.1, 0.1, 0.1, 0.1] [0.005]
            = onset_loop example_samples 200 2 1 13 0.5 [0.5, 0.1, 0.1, 0.1, 0.1, 0.1, 0.1, 0.1, 0.1, 0.5] [0.005, 0.06]"
    by (rule onset_step [OF _ example_energy(13)]) (simp_all add: len historySize_def)
  have s13: "onset_loop example_samples 200 2 1 13 0.5 [0.5, 0.1, 0.1, 0.1, 0.1, 0.1, 0.1, 0.1, 0.1, 0.5] [0.005, 0.06]
            = onset_loop example_samples 200 2 1 14 0.7 [0.1, 0.1, 0.1, 0.1, 0.1, 0.1, 0.1, 0.1, 0.5, 0.7] [0.005, 0.06]"
    by (rule onset_step [OF _ example_energy(14)]) (simp_all add: len historySize_def)
  have fin: "onset_loop example_samples 200 2 1 14 0.7 [0.1, 0.1, 0.1, 0.1, 0.1, 0.1, 0.1, 0.1, 0.5, 0.7] [0.005, 0.06] = Some [0.005, 0.06]"
    by (subst onset_loop.simps) (simp add: len)
  have "detectOnsets example_samples 200 = onset_loop example_samples 200 2 1 0 0 [] []"
    by (simp add: detectOnsets_def)
  then show ?thesis
    unfolding s0 s1 s2 s3 s4 s5 s6 s7 s8 s9 s10 s11 s12 s13 fin .
qed

theorem detectOnsets_spacing_witness:
  "detectOnsets example_samples 200 = Some [0.005, 0.06] \<and> spaced [0.005, 0.06] \<and>
   sorted_wrt (<) [0.005, 0.06::real]"
  using detectOnsets_spacing [of example_samples 200]
  by (simp add: example_onsets)

subsection \<open>The volume curve\<close>

text \<open>The roundings of the volume loop on a tenth of a second at 44100 Hz.\<close>

lemma volume_roundings:
  "dbl (1 / 100) = 5764607523034235 / 576460752303423488"
  "dbl (1 / 50) = 5764607523034235 / 288230376151711744"
  "dbl (63554797941452440875 / 72057594037927936) = 882"
  "dbl (1 / 10) = 3602879701896397 / 36028797018963968"
  "dbl (5764607523034235 / 576460752303423488) = 5764607523034235 / 576460752303423488"
  "dbl (63554797941452440875 / 144115188075855872) = 441"
  "dbl (5764607523034235 / 288230376151711744) = 5764607523034235 / 288230376151711744"
  "dbl (17293822569102705 / 576460752303423488) = 1080863910568919 / 36028797018963968"
  "dbl (11916524614022331975 / 9007199254740992) = 1323"
  "dbl (23058430092136939 / 576460752303423488) = 5764607523034235 / 144115188075855872"
  "dbl (63554797941452440875 / 36028797018963968) = 1764"
  "dbl (28823037615171175 / 576460752303423488) = 3602879701896397 / 72057594037927936"
  "dbl (39721748713407776925 / 18014398509481984) = 2205"
  "dbl (34587645138205411 / 576460752303423488) = 8646911284551353 / 144115188075855872"
  "dbl (95332196912178666825 / 36028797018963968) = 2646"
  "dbl (40352252661239647 / 576460752303423488) = 1261007895663739 / 18014398509481984"
  "dbl (13902612049692722475 / 4503599627370496) = 6788384789889025 / 2199023255552"
  "dbl (46116860184273883 / 576460752303423488) = 5764607523034235 / 72057594037927936"
  "dbl (63554797941452440875 / 18014398509481984) = 3528"
  "dbl (51881467707308115 / 576460752303423488) = 3242591731706757 / 36028797018963968"
  "dbl (35749573842066995925 / 9007199254740992) = 3969"
  "dbl (57646075230342347 / 576460752303423488) = 7205759403792793 / 72057594037927936"
  "dbl (79443497426815542825 / 18014398509481984) = 4410"
  "dbl (63410682753376579 / 576460752303423488) = 990791918021509 / 9007199254740992"
  "dbl (1 / 4) = 1 / 4"
  "dbl (1 / 2) = 1 / 2"
proof -
  show "dbl (1 / 100) = 5764607523034235 / 576460752303423488"
    by (rule dbl_normal [where e = "-7" and n = 5764607523034235, THEN trans])
      (simp_all add: round_half_even_def)
  show "dbl (1 / 50) = 5764607523034235 / 288230376151711744"
    by (rule dbl_normal [where e = "-6" and n = 5764607523034235, THEN trans])
      (simp_all add: round_half_even_def)
  show "dbl (63554797941452440875 / 72057594037927936) = 882"
    by (rule dbl_normal [where e = "9" and n = 7758154045587456, THEN trans])
      (simp_all add: round_half_even_def)
  show "dbl (1 / 10) = 3602879701896397 / 36028797018963968"
    by (rule dbl_normal [where e = "-4" and n = 7205759403792794, THEN trans])
      (simp_all add: round_half_even_def)
  show "dbl (5764607523034235 / 576460752303423488) = 5764607523034235 / 576460752303423488"
    by (rule dbl_normal [where e = "-7" and n = 5764607523034235, THEN trans])
      (simp_all add: round_half_even_def)
  show "dbl (63554797941452440875 / 144115188075855872) = 441"
    by (rule dbl_normal [where e = "8" and n = 7758154045587456, THEN trans])
      (simp_all add: round_half_even_def)
  show "dbl (5764607523034235 / 288230376151711744) = 5764607523034235 / 288230376151711744"
    by (rule dbl_normal [where e = "-6" and n = 5764607523034235, THEN trans])
      (simp_all add: round_half_even_def)
  show "dbl (17293822569102705 / 576460752303423488) = 1080863910568919 / 36028797018963968"
    by (rule dbl_normal [where e = "-6" and n = 8646911284551352, THEN trans])
      (simp_all add: round_half_even_def)
  show "dbl (11916524614022331975 / 9007199254740992) = 1323"
    by (rule dbl_normal [where e = "10" and n = 5818615534190592, THEN trans])
      (simp_all add: round_half_even_def)
  show "dbl (23058430092136939 / 576460752303423488) = 5764607523034235 / 144115188075855872"
    by (rule dbl_normal [where e = "-5" and n = 5764607523034235, THEN trans])
      (simp_all add: round_half_even_def)
  show "dbl (63554797941452440875 / 36028797018963968) = 1764"
    by (rule dbl_normal [where e = "10" and n = 7758154045587456, THEN trans])
      (simp_all add: round_half_even_def)
  show "dbl (28823037615171175 / 576460752303423488) = 3602879701896397 / 72057594037927936"
    by (rule dbl_normal [where e = "-5" and n = 7205759403792794, THEN trans])
      (simp_all add: round_half_even_def)
  show "dbl (39721748713407776925 / 18014398509481984) = 2205"
    by (rule dbl_normal [where e = "11" and n = 4848846278492160, THEN trans])
      (simp_all add: round_half_even_def)
  show "dbl (34587645138205411 / 576460752303423488) = 8646911284551353 / 144115188075855872"
    by (rule dbl_normal [where e = "-5" and n = 8646911284551353, THEN trans])
      (simp_all add: round_half_even_def)
  show "dbl (95332196912178666825 / 36028797018963968) = 2646"
    by (rule dbl_normal [where e = "11" and n = 5818615534190592, THEN trans])
      (simp_all add: round_half_even_def)
  show "dbl (40352252661239647 / 576460752303423488) = 1261007895663739 / 18014398509481984"
    by (rule dbl_normal [where e = "-4" and n = 5044031582654956, THEN trans])
      (simp_all add: round_half_even_def)
  show "dbl (13902612049692722475 / 4503599627370496) = 6788384789889025 / 2199023255552"
    by (rule dbl_normal [where e = "11" and n = 6788384789889025, THEN trans])
      (simp_all add: round_half_even_def)
  show "dbl (46116860184273883 / 576460752303423488) = 5764607523034235 / 72057594037927936"
    by (rule dbl_normal [where e = "-4" and n = 5764607523034235, THEN trans])
      (simp_all add: round_half_even_def)
  show "dbl (63554797941452440875 / 18014398509481984) = 3528"
    by (rule dbl_normal [where e = "11" and n = 7758154045587456, THEN trans])
      (simp_all add: round_half_even_def)
  show "dbl (51881467707308115 / 576460752303423488) = 3242591731706757 / 36028797018963968"
    by (rule dbl_normal [where e = "-4" and n = 6485183463413514, THEN trans])
      (simp_all add: round_half_even_def)
  show "dbl (35749573842066995925 / 9007199254740992) = 3969"
    by (rule dbl_normal [where e = "11" and n = 8727923301285888, THEN trans])
      (simp_all add: round_half_even_def)
  show "dbl (57646075230342347 / 576460752303423488) = 7205759403792793 / 72057594037927936"
    by (rule dbl_normal [where e = "-4" and n = 7205759403792793, THEN trans])
      (simp_all add: round_half_even_def)
  show "dbl (79443497426815542825 / 18014398509481984) = 4410"
    by (rule dbl_normal [where e = "12" and n = 4848846278492160, THEN trans])
      (simp_all add: round_half_even_def)
  show "dbl (63410682753376579 / 576460752303423488) = 990791918021509 / 9007199254740992"
    by (rule dbl_normal [where e = "-4" and n = 7926335344172072, THEN trans])
      (simp_all add: round_half_even_def)
  show "dbl (1 / 4) = 1 / 4"
    by (rule dbl_normal [where e = "-2" and n = 4503599627370496, THEN trans])
      (simp_all add: round_half_even_def)
  show "dbl (1 / 2) = 1 / 2"
    by (rule dbl_normal [where e = "-1" and n = 4503599627370496, THEN trans])
      (simp_all add: round_half_even_def)
qed

lemma dbl_zero: "dbl 0 = 0"
  by (simp add: dbl_def)

lemma half_level_length: "length half_level_buffer = 4410"
  by (simp add: half_level_buffer_def)

lemma half_level_sum:
  "e \<le> 4410 \<Longrightarrow>
   foldl (\<lambda>sum i. dbl (sum + dbl ((half_level_buffer ! i)\<^sup>2))) 0 [s ..< e] = real (e - s) / 4"
proof (induction e)
  case 0
  then show ?case by simp
next
  case (Suc e)
  show ?case
  proof (cases "s \<le> e")
    case True
    define x :: real where "x = of_int (int (Suc e - s)) * 2 powi (- 2)"
    have ih: "foldl (\<lambda>sum i. dbl (sum + dbl ((half_level_buffer ! i)\<^sup>2))) 0 [s ..< e]
                = real (e - s) / 4"
      using Suc by simp
    have sq: "dbl ((half_level_buffer ! e)\<^sup>2) = 1 / 4"
      using Suc.prems by (simp add: half_level_buffer_def power2_eq_square volume_roundings)
    have a: "real (e - s) / 4 + 1 / 4 = x"
      using True by (simp add: x_def power_int_minus field_simps of_nat_diff)
    have b: "real (Suc e - s) / 4 = x"
      using True by (simp add: x_def power_int_minus field_simps of_nat_diff)
    have c: "dbl x = x"
      unfolding x_def using Suc.prems by (intro dbl_exact) simp_all
    have upt: "[s ..< Suc e] = [s ..< e] @ [e]" using True by simp
    have "foldl (\<lambda>sum i. dbl (sum + dbl ((half_level_buffer ! i)\<^sup>2))) 0 [s ..< Suc e]
            = dbl (real (e - s) / 4 + 1 / 4)"
      unfolding upt foldl_append ih by (simp only: foldl.simps sq)
    also have "\<dots> = x" unfolding a by (rule c)
    finally show ?thesis unfolding b .
  next
    case False
    then show ?thesis by simp
  qed
qed

lemma half_level_rms:
  assumes "s < e" and "e \<le> 4410"
  shows "rms_window half_level_buffer s e = Some (1 / 2)"
proof -
  have sum: "foldl (\<lambda>sum i. dbl (sum + dbl ((half_level_buffer ! i)\<^sup>2))) 0 [s ..< e]
               = real (e - s) / 4"
    by (rule half_level_sum [OF assms(2)])
  have ne: "(e = s) = False" using assms(1) by simp
  have q: "real (e - s) / 4 / (real e - real s) = 1 / 4"
    using assms(1) by (simp add: of_nat_diff)
  have r: "sqrt (1 / 4) = 1 / 2"
    by (simp add: real_sqrt_divide)
  have "rms_window half_level_buffer s e
          = Some (dbl (sqrt (dbl (real (e - s) / 4 / (real e - real s)))))"
    unfolding rms_window_def Let_def sum ne by (simp only: if_False)
  also have "\<dots> = Some (1 / 2)"
    unfolding q volume_roundings r by (rule refl)
  finally show ?thesis .
qed

lemma rms_window_empty: "rms_window cd s s = None"
  by (simp add: rms_window_def)

lemma volume_loop_step:
  assumes "t < dur"
    and "nat \<lfloor>dbl (t * sr)\<rfloor> = s"
    and "rms_window cd s (min (s + w) (length cd)) = r"
    and "dbl (t + analysisStep) = t'"
  shows "volume_loop cd sr dur w t vd = volume_loop cd sr dur w t' (vd @ [(t, r)])"
  using assms by (subst volume_loop.simps) (simp add: Let_def)

lemma volume_loop_exit:
  "\<not> t < dur \<Longrightarrow> volume_loop cd sr dur w t vd = Some vd"
  by (subst volume_loop.simps) simp

lemma tenth_second_loop:
  "volume_loop half_level_buffer 44100 (3602879701896397 / 36028797018963968) 882 0 []
     = Some [(0, Some (1 / 2)),
            (5764607523034235 / 576460752303423488, Some (1 / 2)),
            (5764607523034235 / 288230376151711744, Some (1 / 2)),
            (1080863910568919 / 36028797018963968, Some (1 / 2)),
            (5764607523034235 / 144115188075855872, Some (1 / 2)),
            (3602879701896397 / 72057594037927936, Some (1 / 2)),
            (8646911284551353 / 144115188075855872, Some (1 / 2)),
            (1261007895663739 / 18014398509481984, Some (1 / 2)),
            (5764607523034235 / 72057594037927936, Some (1 / 2)),
            (3242591731706757 / 36028797018963968, Some (1 / 2)),
            (7205759403792793 / 72057594037927936, None)]"
proof -
  have s0: "volume_loop half_level_buffer 44100 (3602879701896397 / 36028797018963968) 882 0 vd
      = volume_loop half_level_buffer 44100 (3602879701896397 / 36028797018963968) 882 (5764607523034235 / 576460752303423488) (vd @ [(0, Some (1 / 2))])" for vd
    by (rule volume_loop_step [where s = 0])
      (simp_all add: analysisStep_def volume_roundings dbl_zero half_level_length
        half_level_rms rms_window_empty)
  have s1: "volume_loop half_level_buffer 44100 (3602879701896397 / 36028797018963968) 882 (5764607523034235 / 576460752303423488) vd
      = volume_loop half_level_buffer 44100 (3602879701896397 / 36028797018963968) 882 (5764607523034235 / 288230376151711744) (vd @ [(5764607523034235 / 576460752303423488, Some (1 / 2))])" for vd
    by (rule volume_loop_step [where s = 441])
      (simp_all add: analysisStep_def volume_roundings dbl_zero half_level_length
        half_level_rms rms_window_empty)
  have s2: "volume_loop half_level_buffer 44100 (3602879701896397 / 36028797018963968) 882 (5764607523034235 / 288230376151711744) vd
      = volume_loop half_level_buffer 44100 (3602879701896397 / 36028797018963968) 882 (1080863910568919 / 36028797018963968) (vd @ [(5764607523034235 / 288230376151711744, Some (1 / 2))])" for vd
    by (rule volume_loop_step [where s = 882])
      (simp_all add: analysisStep_def volume_roundings dbl_zero half_level_length
        half_level_rms rms_window_empty)
  have s3: "volume_loop half_level_buffer 44100 (3602879701896397 / 36028797018963968) 882 (1080863910568919 / 36028797018963968) vd
      = volume_loop half_level_buffer 44100 (3602879701896397 / 36028797018963968) 882 (5764607523034235 / 144115188075855872) (vd @ [(1080863910568919 / 36028797018963968, Some (1 / 2))])" for vd
    by (rule volume_loop_step [where s = 1323])
      (simp_all add: analysisStep_def volume_roundings dbl_zero half_level_length
        half_level_rms rms_window_empty)
  have s4: "volume_loop half_level_buffer 44100 (3602879701896397 / 36028797018963968) 882 (5764607523034235 / 144115188075855872) vd
      = volume_loop half_level_buffer 44100 (3602879701896397 / 36028797018963968) 882 (3602879701896397 / 72057594037927936) (vd @ [(5764607523034235 / 144115188075855872, Some (1 / 2))])" for vd
    by (rule volume_loop_step [where s = 1764])
      (simp_all add: analysisStep_def volume_roundings dbl_zero half_level_length
        half_level_rms rms_window_empty)
  have s5: "volume_loop half_level_buffer 44100 (3602879701896397 / 36028797018963968) 882 (3602879701896397 / 72057594037927936) vd
      = volume_loop half_level_buffer 44100 (3602879701896397 / 36028797018963968) 882 (8646911284551353 / 144115188075855872) (vd @ [(3602879701896397 / 72057594037927936, Some (1 / 2))])" for vd
    by (rule volume_loop_step [where s = 2205])
      (simp_all add: analysisStep_def volume_roundings dbl_zero half_level_length
        half_level_rms rms_window_empty)
  have s6: "volume_loop half_level_buffer 44100 (3602879701896397 / 36028797018963968) 882 (8646911284551353 / 144115188075855872) vd
      = volume_loop half_level_buffer 44100 (3602879701896397 / 36028797018963968) 882 (1261007895663739 / 18014398509481984) (vd @ [(8646911284551353 / 144115188075855872, Some (1 / 2))])" for vd
    by (rule volume_loop_step [where s = 2646])
      (simp_all add: analysisStep_def volume_roundings dbl_zero half_level_length
        half_level_rms rms_window_empty)
  have s7: "volume_loop half_level_buffer 44100 (3602879701896397 / 36028797018963968) 882 (1261007895663739 / 18014398509481984) vd
      = volume_loop half_level_buffer 44100 (3602879701896397 / 36028797018963968) 882 (5764607523034235 / 72057594037927936) (vd @ [(1261007895663739 / 18014398509481984, Some (1 / 2))])" for vd
    by (rule volume_loop_step [where s = 3087])
      (simp_all add: analysisStep_def volume_roundings dbl_zero half_level_length
        half_level_rms rms_window_empty)
  have s8: "volume_loop half_level_buffer 44100 (3602879701896397 / 36028797018963968) 882 (5764607523034235 / 72057594037927936) vd
      = volume_loop half_level_buffer 44100 (3602879701896397 / 36028797018963968) 882 (3242591731706757 / 36028797018963968) (vd @ [(5764607523034235 / 72057594037927936, Some (1 / 2))])" for vd
    by (rule volume_loop_step [where s = 3528])
      (simp_all add: analysisStep_def volume_roundings dbl_zero half_level_length
        half_level_rms rms_window_empty)
  have s9: "volume_loop half_level_buffer 44100 (3602879701896397 / 36028797018963968) 882 (3242591731706757 / 36028797018963968) vd
      = volume_loop half_level_buffer 44100 (3602879701896397 / 36028797018963968) 882 (7205759403792793 / 72057594037927936) (vd @ [(3242591731706757 / 36028797018963968, Some (1 / 2))])" for vd
    by (rule volume_loop_step [where s = 3969])
      (simp_all add: analysisStep_def volume_roundings dbl_zero half_level_length
        half_level_rms rms_window_empty)
  have s10: "volume_loop half_level_buffer 44100 (3602879701896397 / 36028797018963968) 882 (7205759403792793 / 72057594037927936) vd
      = volume_loop half_level_buffer 44100 (3602879701896397 / 36028797018963968) 882 (990791918021509 / 9007199254740992) (vd @ [(7205759403792793 / 72057594037927936, None)])" for vd
    by (rule volume_loop_step [where s = 4410])
      (simp_all add: analysisStep_def volume_roundings dbl_zero half_level_length
        half_level_rms rms_window_empty)
  have fin: "volume_loop half_level_buffer 44100 (3602879701896397 / 36028797018963968) 882 (990791918021509 / 9007199254740992) vd = Some vd" for vd
    by (rule volume_loop_exit) simp
  show ?thesis
    unfolding s0 s1 s2 s3 s4 s5 s6 s7 s8 s9 s10 fin by simp
qed

text \<open>
  C9 (the code differs). A tenth of a second of a signal of level 0.5 at 44100 Hz: ten
  additions of \<^verbatim>\<open>0.01\<close> in doubles give 0.09999999999999999, which is below the duration
  \<^verbatim>\<open>4410 / 44100\<close>, so the loop runs an eleventh time. There \<open>startSample\<close> is 4410, the length of the
  buffer, the window is empty and the level is \<^verbatim>\<open>NaN\<close>; \<^verbatim>\<open>Math.max\<close> is \<^verbatim>\<open>NaN\<close>, the test
  \<^verbatim>\<open>maxVolume > 0\<close> fails and every normalized level is 0, although the ten raw levels
  are 0.5: the points with the maximum raw level do not have the normalized level 1.
\<close>

theorem volume_curve_tenth_second:
  "map_option (map volume_point.time) (volume_curve half_level_buffer 44100)
     = Some tenth_second_times \<and>
   last tenth_second_times < dbl (4410 / 44100) \<and>
   map_option (map volume) (volume_curve half_level_buffer 44100)
     = Some [Some (1 / 2), Some (1 / 2), Some (1 / 2), Some (1 / 2), Some (1 / 2),
             Some (1 / 2), Some (1 / 2), Some (1 / 2), Some (1 / 2), Some (1 / 2), None] \<and>
   map_option (map normalized) (volume_curve half_level_buffer 44100)
     = Some [Some 0, Some 0, Some 0, Some 0, Some 0, Some 0, Some 0, Some 0, Some 0, Some 0,
             Some 0]"
proof -
  have "volume_curve half_level_buffer 44100 = map_option normalize_volumes
          (volume_loop half_level_buffer 44100 (3602879701896397 / 36028797018963968) 882 0 [])"
    by (simp add: volume_curve_def Let_def half_level_length volume_roundings)
  then show ?thesis
    unfolding tenth_second_loop
    by (simp add: normalize_volumes_def math_max_def max_step_def tenth_second_times_def
        volume_roundings)
qed

end
